theory Spec2Isabelle
  imports Complex_Main "HOL-Library.Log_Nat"
begin

section \<open>Python numbers\<close>

text \<open>
  Both scripts compute with Python ints (unbounded, modelled as \<open>int\<close>) and Python floats
  (IEEE 754 binary64). A float is modelled by its exact rational value, with a separate
  negative zero, the two infinities and NaN. Every arithmetic operation computes the exact
  rational result and rounds it to the nearest binary64 number, ties to even, as the
  hardware does. The operations that raise in Python return an error value.
\<close>

datatype py_error = OverflowError | ValueError | ZeroDivisionError | KeyError

datatype double = Fin rat | NegZero | Infty bool | NaN

text \<open>\<open>ilog2 q\<close> is the integer \<open>k\<close> with \<open>2^k \<le> q < 2^(k+1)\<close>, for \<open>q > 0\<close>.\<close>

definition ilog2 :: "rat \<Rightarrow> int" where
  "ilog2 q = (if 1 \<le> q then bitlen \<lfloor>q\<rfloor> - 1 else - bitlen (\<lceil>1 / q\<rceil> - 1))"

definition round_half_even :: "rat \<Rightarrow> int" where
  "round_half_even x = (let f = \<lfloor>x\<rfloor>; d = x - of_int f in
     if d < 1 / 2 then f else if 1 / 2 < d then f + 1 else if even f then f else f + 1)"

text \<open>The exponent of the unit in the last place: 53 significant bits, and never below
  the subnormal exponent \<open>-1074\<close>.\<close>

definition expo :: "rat \<Rightarrow> int" where
  "expo q = max (ilog2 q - 52) (- 1074)"

text \<open>Rounding of a non-negative magnitude to the binary64 grid (exponent unbounded above).\<close>

definition round_double :: "rat \<Rightarrow> rat" where
  "round_double q = (if q \<le> 0 then 0 else
     (let e = expo q in of_int (round_half_even (q / 2 powi e)) * 2 powi e))"

text \<open>The float with sign bit \<open>s\<close> nearest to the magnitude \<open>q\<close>; overflow gives infinity.\<close>

definition mk_double :: "bool \<Rightarrow> rat \<Rightarrow> double" where
  "mk_double s q = (let r = round_double q in
     if 2 powi 1024 \<le> r then Infty s
     else if r = 0 then (if s then NegZero else Fin 0)
     else Fin (if s then - r else r))"

text \<open>A float literal of the source text, such as \<^verbatim>\<open>0.8\<close>.\<close>

definition float_of_rat :: "rat \<Rightarrow> double" where
  "float_of_rat q = mk_double (q < 0) \<bar>q\<bar>"

fun sign :: "double \<Rightarrow> bool" where
  "sign (Fin q) = (q < 0)"
| "sign NegZero = True"
| "sign (Infty s) = s"
| "sign NaN = False"

fun mag :: "double \<Rightarrow> rat" where
  "mag (Fin q) = \<bar>q\<bar>"
| "mag NegZero = 0"
| "mag (Infty s) = 0"
| "mag NaN = 0"

fun val :: "double \<Rightarrow> rat" where
  "val (Fin q) = q"
| "val NegZero = 0"
| "val (Infty s) = 0"
| "val NaN = 0"

fun is_finite :: "double \<Rightarrow> bool" where
  "is_finite (Fin q) = True"
| "is_finite NegZero = True"
| "is_finite (Infty s) = False"
| "is_finite NaN = False"

fun float_neg :: "double \<Rightarrow> double" where
  "float_neg (Fin q) = (if q = 0 then NegZero else Fin (- q))"
| "float_neg NegZero = Fin 0"
| "float_neg (Infty s) = Infty (\<not> s)"
| "float_neg NaN = NaN"

definition float_mul :: "double \<Rightarrow> double \<Rightarrow> double" where
  "float_mul x y =
     (if x = NaN \<or> y = NaN then NaN
      else if is_finite x \<and> is_finite y then mk_double (sign x \<noteq> sign y) (mag x * mag y)
      else if (is_finite x \<and> mag x = 0) \<or> (is_finite y \<and> mag y = 0) then NaN
      else Infty (sign x \<noteq> sign y))"

definition float_add :: "double \<Rightarrow> double \<Rightarrow> double" where
  "float_add x y =
     (if x = NaN \<or> y = NaN then NaN
      else if is_finite x \<and> is_finite y then
        (let v = val x + val y in
         if v = 0 then (if sign x \<and> sign y then NegZero else Fin 0)
         else mk_double (v < 0) \<bar>v\<bar>)
      else if is_finite y then x
      else if is_finite x then y
      else if sign x = sign y then x else NaN)"

definition float_sub :: "double \<Rightarrow> double \<Rightarrow> double" where
  "float_sub x y = float_add x (float_neg y)"

text \<open>The comparison \<^verbatim>\<open>x <= y\<close> of two floats: false when either is NaN, and the two
  zeros are equal.\<close>

definition float_le :: "double \<Rightarrow> double \<Rightarrow> bool" where
  "float_le x y =
     (if x = NaN \<or> y = NaN then False
      else if x = Infty True \<or> y = Infty False then True
      else if x = Infty False \<or> y = Infty True then False
      else val x \<le> val y)"

text \<open>Sequencing of steps that may raise: the first exception ends the computation.\<close>

definition and_then :: "py_error + 'a \<Rightarrow> ('a \<Rightarrow> py_error + 'b) \<Rightarrow> py_error + 'b" where
  "and_then m f = (case m of Inl e \<Rightarrow> Inl e | Inr v \<Rightarrow> f v)"

text \<open>The conversion of an int operand to float: correctly rounded, and OverflowError
  (int too large to convert to float) beyond the float range.\<close>

definition int_to_float :: "int \<Rightarrow> py_error + double" where
  "int_to_float n = (case mk_double (n < 0) \<bar>of_int n\<bar> of
       Infty s \<Rightarrow> Inl OverflowError
     | d \<Rightarrow> Inr d)"

text \<open>\<^verbatim>\<open>int(x)\<close> on a float: truncation toward zero; ValueError on NaN and OverflowError
  on an infinity.\<close>

fun py_int :: "double \<Rightarrow> py_error + int" where
  "py_int NaN = Inl ValueError"
| "py_int (Infty s) = Inl OverflowError"
| "py_int NegZero = Inr 0"
| "py_int (Fin q) = Inr (if 0 \<le> q then \<lfloor>q\<rfloor> else \<lceil>q\<rceil>)"

text \<open>\<^verbatim>\<open>n * x\<close> and \<^verbatim>\<open>x * n\<close> for an int \<open>n\<close> and a float \<open>x\<close>.\<close>

definition int_times_float :: "int \<Rightarrow> double \<Rightarrow> py_error + double" where
  "int_times_float n x = and_then (int_to_float n) (\<lambda>d. Inr (float_mul d x))"

definition float_times_int :: "double \<Rightarrow> int \<Rightarrow> py_error + double" where
  "float_times_int x n = and_then (int_to_float n) (\<lambda>d. Inr (float_mul x d))"

text \<open>\<^verbatim>\<open>a / b\<close> on two ints: the correctly rounded quotient.\<close>

definition int_truediv :: "int \<Rightarrow> int \<Rightarrow> py_error + double" where
  "int_truediv a b =
     (if b = 0 then Inl ZeroDivisionError
      else (case mk_double ((a < 0) \<noteq> (b < 0)) (\<bar>of_int a\<bar> / \<bar>of_int b\<bar>) of
          Infty s \<Rightarrow> Inl OverflowError
        | d \<Rightarrow> Inr d))"

text \<open>A value that is an int on one path and a float on another.\<close>

datatype py_number = PyInt int | PyFloat double

text \<open>The test \<^verbatim>\<open>0 <= x\<close>, and the floats that a sum of non-negative floats can be: a
  non-negative binary64 number or plus infinity.\<close>

definition float_ge0 :: "double \<Rightarrow> bool" where
  "float_ge0 x = float_le (Fin 0) x"

definition nonneg_double :: "double \<Rightarrow> bool" where
  "nonneg_double x = (case x of
       Fin q \<Rightarrow> 0 \<le> q \<and> round_double q = q
     | NegZero \<Rightarrow> False
     | Infty s \<Rightarrow> \<not> s
     | NaN \<Rightarrow> False)"

definition is_zero :: "double \<Rightarrow> bool" where
  "is_zero x = (x = Fin 0 \<or> x = NegZero)"

text \<open>The two exceptions that the arithmetic of the scripts can raise.\<close>

definition arith_error :: "py_error \<Rightarrow> bool" where
  "arith_error e = (e = OverflowError \<or> e = ValueError)"

section \<open>growth\_simulation.py\<close>

record SimulationConfig =
  initial_hosts :: int
  events_per_host_per_month :: double
  avg_attendees_per_event :: int
  attendees_already_have_app :: double
  post_reveal_upgrade_rate :: double
  web_album_share_rate :: double
  non_app_viewers_per_share :: int
  web_viewer_download_rate :: double
  download_to_install_rate :: double
  new_install_becomes_host_rate :: double
  host_monthly_retention :: double
  premium_price_gbp :: double

text \<open>The field defaults of the dataclass.\<close>

definition default_SimulationConfig :: SimulationConfig where
  "default_SimulationConfig = \<lparr>
     initial_hosts = 50,
     events_per_host_per_month = float_of_rat (8 / 10),
     avg_attendees_per_event = 8,
     attendees_already_have_app = float_of_rat (3 / 10),
     post_reveal_upgrade_rate = float_of_rat (25 / 100),
     web_album_share_rate = float_of_rat (7 / 10),
     non_app_viewers_per_share = 5,
     web_viewer_download_rate = float_of_rat (4 / 10),
     download_to_install_rate = float_of_rat (15 / 100),
     new_install_becomes_host_rate = float_of_rat (3 / 10),
     host_monthly_retention = float_of_rat (85 / 100),
     premium_price_gbp = float_of_rat (799 / 100) \<rparr>"

record MonthlyMetrics =
  month :: int
  total_hosts :: int
  active_hosts :: int
  total_app_users :: int
  events_created :: int
  total_attendees :: int
  new_app_installs_from_events :: int
  premium_upgrades :: int
  revenue_gbp :: double
  cumulative_revenue_gbp :: double
  web_albums_shared :: int
  web_album_views :: int
  web_downloads :: int
  installs_from_web :: int
  new_hosts_from_web :: int
  conversion_rate :: py_number
  viral_coefficient :: py_number

text \<open>The running state of the loop: total hosts, active hosts, total app users and
  cumulative revenue.\<close>

type_synonym sim_state = "int \<times> int \<times> int \<times> double"

text \<open>One iteration of the loop body of \<^verbatim>\<open>run_simulation\<close>: the record of the month and
  the state left for the next month.\<close>

definition month_body ::
  "SimulationConfig \<Rightarrow> int \<Rightarrow> sim_state \<Rightarrow> py_error + (MonthlyMetrics \<times> sim_state)" where
  "month_body config = (\<lambda>month (total_hosts, active_hosts, total_app_users, cumulative_revenue).
   and_then (and_then (int_times_float active_hosts (events_per_host_per_month config)) py_int)
     (\<lambda>events_created.
   let total_attendees = events_created * avg_attendees_per_event config in
   and_then (and_then (int_times_float total_attendees
               (float_sub (Fin 1) (attendees_already_have_app config))) py_int)
     (\<lambda>new_attendees_without_app.
   and_then (and_then (int_times_float new_attendees_without_app (float_of_rat (6 / 10))) py_int)
     (\<lambda>new_installs_from_events.
   and_then (and_then (int_times_float events_created (post_reveal_upgrade_rate config)) py_int)
     (\<lambda>premium_upgrades.
   and_then (int_times_float premium_upgrades (premium_price_gbp config))
     (\<lambda>revenue.
   let cumulative_revenue = float_add cumulative_revenue revenue in
   and_then (and_then (int_times_float premium_upgrades (web_album_share_rate config)) py_int)
     (\<lambda>web_albums_shared.
   let web_album_views = web_albums_shared * non_app_viewers_per_share config in
   and_then (and_then (int_times_float web_album_views (web_viewer_download_rate config)) py_int)
     (\<lambda>web_downloads.
   and_then (and_then (int_times_float web_downloads (download_to_install_rate config)) py_int)
     (\<lambda>installs_from_web.
   and_then (and_then (int_times_float installs_from_web
               (new_install_becomes_host_rate config)) py_int)
     (\<lambda>new_hosts_from_web.
   and_then (and_then (int_times_float active_hosts (host_monthly_retention config)) py_int)
     (\<lambda>active_hosts.
   and_then (and_then (int_times_float new_installs_from_events (float_of_rat (2 / 10))) py_int)
     (\<lambda>new_hosts_from_events.
   let new_hosts = new_hosts_from_web + new_hosts_from_events;
       total_hosts = total_hosts + new_hosts;
       active_hosts = active_hosts + new_hosts;
       total_app_users = total_app_users + (new_installs_from_events + installs_from_web) in
   and_then (if events_created > 0
             then and_then (int_truediv premium_upgrades events_created) (\<lambda>r. Inr (PyFloat r))
             else Inr (PyInt 0))
     (\<lambda>conversion_rate.
   and_then (if active_hosts - new_hosts > 0
             then and_then (int_truediv new_hosts (active_hosts - new_hosts))
                    (\<lambda>r. Inr (PyFloat r))
             else Inr (PyInt 0))
     (\<lambda>viral_coefficient.
   Inr (\<lparr> month = month,
          total_hosts = total_hosts,
          active_hosts = active_hosts,
          total_app_users = total_app_users,
          events_created = events_created,
          total_attendees = total_attendees,
          new_app_installs_from_events = new_installs_from_events,
          premium_upgrades = premium_upgrades,
          revenue_gbp = revenue,
          cumulative_revenue_gbp = cumulative_revenue,
          web_albums_shared = web_albums_shared,
          web_album_views = web_album_views,
          web_downloads = web_downloads,
          installs_from_web = installs_from_web,
          new_hosts_from_web = new_hosts_from_web,
          conversion_rate = conversion_rate,
          viral_coefficient = viral_coefficient \<rparr>,
        (total_hosts, active_hosts, total_app_users, cumulative_revenue))))))))))))))))"

text \<open>The loop \<^verbatim>\<open>for month in range(1, months + 1)\<close>, appending to \<^verbatim>\<open>results\<close>.\<close>

fun sim_loop ::
  "SimulationConfig \<Rightarrow> int list \<Rightarrow> sim_state \<Rightarrow> MonthlyMetrics list
     \<Rightarrow> py_error + MonthlyMetrics list" where
  "sim_loop config [] st results = Inr results"
| "sim_loop config (m # rest) st results =
     (case month_body config m st of
        Inl e \<Rightarrow> Inl e
      | Inr (metrics, st') \<Rightarrow> sim_loop config rest st' (results @ [metrics]))"

definition run_simulation :: "SimulationConfig \<Rightarrow> int \<Rightarrow> py_error + MonthlyMetrics list" where
  "run_simulation config months =
     sim_loop config [1..months]
       (initial_hosts config, initial_hosts config, initial_hosts config, Fin 0) []"

text \<open>The running state that a record leaves for the next month, and the state entering
  the month of the \<open>i\<close>-th record (counted from 0) of a result list.\<close>

definition state_of :: "MonthlyMetrics \<Rightarrow> sim_state" where
  "state_of r = (total_hosts r, active_hosts r, total_app_users r, cumulative_revenue_gbp r)"

definition initial_state :: "SimulationConfig \<Rightarrow> sim_state" where
  "initial_state config =
     (initial_hosts config, initial_hosts config, initial_hosts config, Fin 0)"

definition entering :: "SimulationConfig \<Rightarrow> MonthlyMetrics list \<Rightarrow> nat \<Rightarrow> sim_state" where
  "entering config rs i = (if i = 0 then initial_state config else state_of (rs ! (i - 1)))"

text \<open>A configuration whose counts, rates and price are non-negative, with at most all
  attendees already having the app, and a finite price.\<close>

definition nonneg_config :: "SimulationConfig \<Rightarrow> bool" where
  "nonneg_config c =
     (0 \<le> initial_hosts c
      \<and> float_ge0 (events_per_host_per_month c)
      \<and> 0 \<le> avg_attendees_per_event c
      \<and> float_le (attendees_already_have_app c) (Fin 1)
      \<and> float_ge0 (post_reveal_upgrade_rate c)
      \<and> float_ge0 (web_album_share_rate c)
      \<and> 0 \<le> non_app_viewers_per_share c
      \<and> float_ge0 (web_viewer_download_rate c)
      \<and> float_ge0 (download_to_install_rate c)
      \<and> float_ge0 (new_install_becomes_host_rate c)
      \<and> float_ge0 (host_monthly_retention c)
      \<and> float_ge0 (premium_price_gbp c)
      \<and> is_finite (premium_price_gbp c))"

section \<open>gtm\_simulation.py\<close>

record MonthData =
  month :: int
  phase :: string
  new_users_from_seed :: int
  new_users_from_b2b :: int
  new_users_from_tiktok :: int
  new_users_from_festival :: int
  total_users :: int
  active_users :: int
  events_created :: int
  premium_upgrades :: int
  revenue :: double
  cumulative_revenue :: double
  web_album_views :: int
  installs_from_web :: int

record GTMConfig =
  seed_users :: int
  seed_events_per_user_per_month :: double
  seed_avg_group_size :: int
  seed_upgrade_rate :: double
  hijack_attendees_per_rave :: int
  hijack_raves_per_month :: int
  hijack_app_install_rate :: double
  hijack_upgrade_rate :: double
  hijack_becomes_host_rate :: double
  hijack_monthly_fee :: double
  tiktok_monthly_installs_low :: int
  tiktok_monthly_installs_mid :: int
  tiktok_monthly_installs_high :: int
  tiktok_install_to_host_rate :: double
  tiktok_upgrade_rate :: double
  festival_attendees :: int
  festival_app_install_rate :: double
  festival_becomes_host_rate :: double
  festival_fee :: double
  premium_price :: double
  monthly_churn_rate :: double
  events_per_host_per_month :: double
  avg_group_size :: int
  general_upgrade_rate :: double
  web_share_rate :: double
  web_viewers_per_share :: int
  web_download_rate :: double
  web_download_to_install :: double
  web_install_to_host :: double

definition default_GTMConfig :: GTMConfig where
  "default_GTMConfig = \<lparr>
     seed_users = 50,
     seed_events_per_user_per_month = float_of_rat (12 / 10),
     seed_avg_group_size = 8,
     seed_upgrade_rate = float_of_rat (35 / 100),
     hijack_attendees_per_rave = 400,
     hijack_raves_per_month = 2,
     hijack_app_install_rate = float_of_rat (25 / 100),
     hijack_upgrade_rate = float_of_rat 0,
     hijack_becomes_host_rate = float_of_rat (5 / 100),
     hijack_monthly_fee = float_of_rat 0,
     tiktok_monthly_installs_low = 50,
     tiktok_monthly_installs_mid = 200,
     tiktok_monthly_installs_high = 1000,
     tiktok_install_to_host_rate = float_of_rat (15 / 100),
     tiktok_upgrade_rate = float_of_rat (20 / 100),
     festival_attendees = 5000,
     festival_app_install_rate = float_of_rat (10 / 100),
     festival_becomes_host_rate = float_of_rat (3 / 100),
     festival_fee = float_of_rat 0,
     premium_price = float_of_rat (799 / 100),
     monthly_churn_rate = float_of_rat (15 / 100),
     events_per_host_per_month = float_of_rat (6 / 10),
     avg_group_size = 6,
     general_upgrade_rate = float_of_rat (25 / 100),
     web_share_rate = float_of_rat (70 / 100),
     web_viewers_per_share = 5,
     web_download_rate = float_of_rat (40 / 100),
     web_download_to_install = float_of_rat (15 / 100),
     web_install_to_host = float_of_rat (25 / 100) \<rparr>"

text \<open>The constructor call \<^verbatim>\<open>MonthData(month=month, phase=phase)\<close>: every other
  field takes its default.\<close>

definition new_MonthData :: "int \<Rightarrow> string \<Rightarrow> MonthData" where
  "new_MonthData = (\<lambda>month phase.
     \<lparr> month = month, phase = phase,
       new_users_from_seed = 0, new_users_from_b2b = 0,
       new_users_from_tiktok = 0, new_users_from_festival = 0,
       total_users = 0, active_users = 0, events_created = 0,
       premium_upgrades = 0, revenue = Fin 0, cumulative_revenue = Fin 0,
       web_album_views = 0, installs_from_web = 0 \<rparr>)"

text \<open>The user pools and host counts carried from month to month: seed, B2B, TikTok,
  festival and web-loop users, seed hosts, organic hosts, and the cumulative revenue.\<close>

type_synonym gtm_state = "int \<times> int \<times> int \<times> int \<times> int \<times> int \<times> int \<times> double"

text \<open>The lookup of the scenario in the dict of the three presets; any other key raises
  KeyError.\<close>

definition tiktok_installs_of :: "GTMConfig \<Rightarrow> string \<Rightarrow> py_error + int" where
  "tiktok_installs_of config tiktok_scenario =
     (case map_of [(''low'', tiktok_monthly_installs_low config),
                   (''mid'', tiktok_monthly_installs_mid config),
                   (''high'', tiktok_monthly_installs_high config)] tiktok_scenario of
        None \<Rightarrow> Inl KeyError
      | Some n \<Rightarrow> Inr n)"

text \<open>The phase of the month: the \<^verbatim>\<open>if month <= 2 ... elif ... else\<close> chain.\<close>

definition gtm_phase ::
  "GTMConfig \<Rightarrow> int \<Rightarrow> int \<Rightarrow> MonthData \<Rightarrow> int \<times> int \<times> int \<times> int \<times> int \<times> int
     \<Rightarrow> py_error + (MonthData \<times> int \<times> int \<times> int \<times> int \<times> int \<times> int)" where
  "gtm_phase config tiktok_installs = (\<lambda>month data
       (seed_users, b2b_users, tiktok_users, festival_users, seed_hosts, organic_hosts).
   if month \<le> 2 then
     (let data = data\<lparr>phase := ''Seed (Friends)''\<rparr> in
      if month = 1 then
        Inr (data\<lparr>new_users_from_seed := GTMConfig.seed_users config\<rparr>,
             GTMConfig.seed_users config, b2b_users, tiktok_users, festival_users,
             GTMConfig.seed_users config, organic_hosts)
      else Inr (data, seed_users, b2b_users, tiktok_users, festival_users,
                seed_hosts, organic_hosts))
   else if month \<le> 4 then
     (let data = data\<lparr>phase := ''Hijack B2B''\<rparr> in
      and_then (and_then (int_times_float
                  (hijack_attendees_per_rave config * hijack_raves_per_month config)
                  (hijack_app_install_rate config)) py_int)
        (\<lambda>rave_installs.
      and_then (and_then (int_times_float rave_installs (hijack_becomes_host_rate config))
                  py_int)
        (\<lambda>new_hosts_from_b2b.
      Inr (data\<lparr>new_users_from_b2b := rave_installs\<rparr>,
           seed_users, b2b_users + rave_installs, tiktok_users, festival_users,
           seed_hosts, organic_hosts + new_hosts_from_b2b))))
   else if month \<le> 6 then
     (let data = data\<lparr>phase := ''TikTok/UGC''\<rparr>;
          ramp_factor = (if month = 5 then float_of_rat (5 / 10) else float_of_rat 1) in
      and_then (and_then (int_times_float tiktok_installs ramp_factor) py_int)
        (\<lambda>monthly_tiktok.
      and_then (and_then (int_times_float monthly_tiktok (tiktok_install_to_host_rate config))
                  py_int)
        (\<lambda>new_hosts_from_tiktok.
      Inr (data\<lparr>new_users_from_tiktok := monthly_tiktok\<rparr>,
           seed_users, b2b_users, tiktok_users + monthly_tiktok, festival_users,
           seed_hosts, organic_hosts + new_hosts_from_tiktok))))
   else
     (let data = data\<lparr>phase := ''Festival + TikTok'',
                        new_users_from_tiktok := tiktok_installs\<rparr>;
          tiktok_users = tiktok_users + tiktok_installs in
      and_then (and_then (int_times_float tiktok_installs (tiktok_install_to_host_rate config))
                  py_int)
        (\<lambda>new_hosts_from_tiktok.
      let organic_hosts = organic_hosts + new_hosts_from_tiktok in
      if month = 7 then
        and_then (and_then (int_times_float (festival_attendees config)
                    (festival_app_install_rate config)) py_int)
          (\<lambda>festival_installs.
        and_then (and_then (int_times_float festival_installs
                    (festival_becomes_host_rate config)) py_int)
          (\<lambda>new_hosts_from_festival.
        Inr (data\<lparr>new_users_from_festival := festival_installs\<rparr>,
             seed_users, b2b_users, tiktok_users, festival_users + festival_installs,
             seed_hosts, organic_hosts + new_hosts_from_festival)))
      else Inr (data, seed_users, b2b_users, tiktok_users, festival_users,
                seed_hosts, organic_hosts))))"

text \<open>The continued B2B partnership: the block under \<^verbatim>\<open>if month > 4\<close>.\<close>

definition gtm_b2b ::
  "GTMConfig \<Rightarrow> int \<Rightarrow> MonthData \<Rightarrow> int \<times> int \<Rightarrow> py_error + (MonthData \<times> int \<times> int)" where
  "gtm_b2b config = (\<lambda>month data (b2b_users, organic_hosts).
   if month > 4 then
     (let partners = (if month \<le> 6 then 1 else 2) in
      and_then (and_then (and_then (int_times_float
                  (hijack_attendees_per_rave config * hijack_raves_per_month config)
                  (hijack_app_install_rate config)) (\<lambda>x. float_times_int x partners)) py_int)
        (\<lambda>rave_installs.
      and_then (and_then (int_times_float rave_installs (hijack_becomes_host_rate config))
                  py_int)
        (\<lambda>new_hosts_from_b2b.
      Inr (data\<lparr>new_users_from_b2b := rave_installs\<rparr>,
           b2b_users + rave_installs, organic_hosts + new_hosts_from_b2b))))
   else Inr (data, b2b_users, organic_hosts))"

text \<open>One iteration of the loop body of \<^verbatim>\<open>run_gtm_simulation\<close>.\<close>

definition gtm_month ::
  "GTMConfig \<Rightarrow> int \<Rightarrow> int \<Rightarrow> gtm_state \<Rightarrow> py_error + (MonthData \<times> gtm_state)" where
  "gtm_month config tiktok_installs = (\<lambda>month
       (seed_users, b2b_users, tiktok_users, festival_users, web_loop_users,
        seed_hosts, organic_hosts, cumulative_revenue).
   let data = new_MonthData month [] in
   and_then (gtm_phase config tiktok_installs month data
               (seed_users, b2b_users, tiktok_users, festival_users, seed_hosts, organic_hosts))
     (\<lambda>(data, seed_users, b2b_users, tiktok_users, festival_users, seed_hosts, organic_hosts).
   and_then (gtm_b2b config month data (b2b_users, organic_hosts))
     (\<lambda>(data, b2b_users, organic_hosts).
   and_then (and_then (int_times_float seed_hosts
               (float_sub (Fin 1) (float_mul (monthly_churn_rate config) (float_of_rat (5 / 10)))))
               py_int)
     (\<lambda>seed_hosts.
   and_then (and_then (int_times_float organic_hosts
               (float_sub (Fin 1) (monthly_churn_rate config))) py_int)
     (\<lambda>organic_hosts.
   and_then (and_then (int_times_float seed_hosts (seed_events_per_user_per_month config))
               py_int)
     (\<lambda>seed_events.
   and_then (and_then (int_times_float organic_hosts (events_per_host_per_month config))
               py_int)
     (\<lambda>organic_events.
   let total_events = seed_events + organic_events;
       data = data\<lparr>events_created := total_events\<rparr> in
   and_then (and_then (int_times_float seed_events (seed_upgrade_rate config)) py_int)
     (\<lambda>seed_upgrades.
   and_then (and_then (int_times_float organic_events (general_upgrade_rate config)) py_int)
     (\<lambda>organic_upgrades.
   let total_upgrades = seed_upgrades + organic_upgrades;
       data = data\<lparr>premium_upgrades := total_upgrades\<rparr> in
   and_then (int_times_float total_upgrades (premium_price config))
     (\<lambda>revenue.
   let data = data\<lparr>revenue := revenue\<rparr>;
       cumulative_revenue = float_add cumulative_revenue revenue;
       data = data\<lparr>cumulative_revenue := cumulative_revenue\<rparr> in
   and_then (and_then (int_times_float total_upgrades (web_share_rate config)) py_int)
     (\<lambda>web_albums_shared.
   let web_views = web_albums_shared * web_viewers_per_share config in
   and_then (and_then (int_times_float web_views (web_download_rate config)) py_int)
     (\<lambda>web_downloads.
   and_then (and_then (int_times_float web_downloads (web_download_to_install config)) py_int)
     (\<lambda>web_installs.
   and_then (and_then (int_times_float web_installs (web_install_to_host config)) py_int)
     (\<lambda>web_new_hosts.
   let data = data\<lparr>web_album_views := web_views, installs_from_web := web_installs\<rparr>;
       web_loop_users = web_loop_users + web_installs;
       organic_hosts = organic_hosts + web_new_hosts;
       total_users = seed_users + b2b_users + tiktok_users + festival_users + web_loop_users in
   and_then (and_then (int_times_float (total_users - seed_hosts - organic_hosts)
               (float_of_rat (3 / 10))) py_int)
     (\<lambda>non_host_active.
   let active_users = seed_hosts + organic_hosts + non_host_active;
       data = data\<lparr>total_users := total_users, active_users := active_users\<rparr> in
   Inr (data,
        (seed_users, b2b_users, tiktok_users, festival_users, web_loop_users,
         seed_hosts, organic_hosts, cumulative_revenue)))))))))))))))))"

fun gtm_loop ::
  "GTMConfig \<Rightarrow> int \<Rightarrow> int list \<Rightarrow> gtm_state \<Rightarrow> MonthData list
     \<Rightarrow> py_error + MonthData list" where
  "gtm_loop config tiktok_installs [] st results = Inr results"
| "gtm_loop config tiktok_installs (m # rest) st results =
     (case gtm_month config tiktok_installs m st of
        Inl e \<Rightarrow> Inl e
      | Inr (data, st') \<Rightarrow> gtm_loop config tiktok_installs rest st' (results @ [data]))"

definition run_gtm_simulation ::
  "GTMConfig \<Rightarrow> int \<Rightarrow> string \<Rightarrow> py_error + MonthData list" where
  "run_gtm_simulation config months tiktok_scenario =
     and_then (tiktok_installs_of config tiktok_scenario)
       (\<lambda>tiktok_installs.
          gtm_loop config tiktok_installs [1..months] (0, 0, 0, 0, 0, 0, 0, Fin 0) [])"

text \<open>The running float sum of a list, added from left to right starting from \<^verbatim>\<open>0.0\<close>.\<close>

definition float_sum :: "double list \<Rightarrow> double" where
  "float_sum xs = foldl float_add (Fin 0) xs"

text \<open>The cumulative revenue held in the running state.\<close>

definition gtm_cum :: "gtm_state \<Rightarrow> double" where
  "gtm_cum = (\<lambda>(seed_users, b2b_users, tiktok_users, festival_users,
     web_loop_users, seed_hosts, organic_hosts, cumulative_revenue). cumulative_revenue)"

text \<open>The total of the five user pools of the running state, and its seed pool.\<close>

definition gtm_total :: "gtm_state \<Rightarrow> int" where
  "gtm_total = (\<lambda>(seed_users, b2b_users, tiktok_users, festival_users,
     web_loop_users, seed_hosts, organic_hosts, cumulative_revenue).
       seed_users + b2b_users + tiktok_users + festival_users + web_loop_users)"

definition gtm_seed :: "gtm_state \<Rightarrow> int" where
  "gtm_seed = (\<lambda>(seed_users, b2b_users, tiktok_users, festival_users,
     web_loop_users, seed_hosts, organic_hosts, cumulative_revenue). seed_users)"

text \<open>The new users that a record reports, over all channels.\<close>

definition new_users :: "MonthData \<Rightarrow> int" where
  "new_users d = new_users_from_seed d + new_users_from_b2b d + new_users_from_tiktok d
     + new_users_from_festival d + installs_from_web d"

text \<open>The TikTok installs that a record of month \<open>m\<close> must report when \<open>t\<close> is the monthly
  install count of the scenario: none in months 1 to 4, \<^verbatim>\<open>int(t * 0.5)\<close> in month 5,
  \<^verbatim>\<open>int(t * 1.0)\<close> in month 6, and \<open>t\<close> from month 7 on.\<close>

definition tiktok_of_month :: "int \<Rightarrow> int \<Rightarrow> int \<Rightarrow> bool" where
  "tiktok_of_month t m n =
     (if m \<le> 4 then n = 0
      else if m = 5 then and_then (int_times_float t (float_of_rat (5 / 10))) py_int = Inr n
      else if m = 6 then and_then (int_times_float t (float_of_rat 1)) py_int = Inr n
      else n = t)"

text \<open>A float whose value is a non-negative integer.\<close>

definition nonneg_integral :: "double \<Rightarrow> bool" where
  "nonneg_integral x = (case x of Fin q \<Rightarrow> 0 \<le> q \<and> of_int \<lfloor>q\<rfloor> = q | _ \<Rightarrow> False)"
section \<open>Rounding to binary64\<close>

lemma floor_rat_numeral_div: "\<lfloor>numeral a / numeral b :: rat\<rfloor> = numeral a div numeral b"
  by (metis floor_divide_of_int_eq of_int_numeral)

lemma ceiling_rat_numeral_div: "\<lceil>numeral a / numeral b :: rat\<rceil> = - ((- numeral a) div numeral b)"
  by (metis ceiling_divide_eq_div of_int_numeral)

lemma ceiling_rat_neg_numeral_div:
  "\<lceil>- (numeral a / numeral b) :: rat\<rceil> = - (numeral a div numeral b)"
  by (simp add: ceiling_minus floor_rat_numeral_div)

lemma pow2_pos: "(0::rat) < 2 powi k"
  by simp

lemma pow2_mono: "k \<le> l \<Longrightarrow> (2::rat) powi k \<le> 2 powi l"
  by (rule power_int_increasing) simp_all

lemma pow2_less_iff: "(2::rat) powi k < 2 powi l \<longleftrightarrow> k < l"
proof
  assume a: "(2::rat) powi k < 2 powi l"
  show "k < l"
  proof (rule ccontr)
    assume "\<not> k < l"
    then have "(2::rat) powi l \<le> 2 powi k" by (intro pow2_mono) simp
    with a show False by simp
  qed
next
  assume "k < l"
  then show "(2::rat) powi k < 2 powi l" by (intro power_int_strict_increasing) simp_all
qed

lemma pow2_Suc: "(2::rat) powi (k + 1) = 2 * 2 powi k"
  by (simp add: power_int_add)

lemma pow2_nat: "0 \<le> k \<Longrightarrow> (2::rat) powi k = 2 ^ nat k"
  by (simp add: power_int_def)

lemma ilog2_bounds:
  assumes "0 < q"
  shows "2 powi ilog2 q \<le> q" and "q < 2 powi (ilog2 q + 1)"
proof -
  have "2 powi ilog2 q \<le> q \<and> q < 2 powi (ilog2 q + 1)"
  proof (cases "1 \<le> q")
    case True
    define n where "n = \<lfloor>q\<rfloor>"
    have n: "0 < n" using True by (simp add: n_def)
    have b: "1 \<le> bitlen n" using n by (simp add: bitlen_alt_def)
    have il: "ilog2 q = bitlen n - 1" using True by (simp add: ilog2_def n_def)
    from bitlen_bounds[OF n] have lo: "2 ^ nat (bitlen n - 1) \<le> n" and hi: "n < 2 ^ nat (bitlen n)"
      by auto
    have "(2::rat) powi (bitlen n - 1) = of_int (2 ^ nat (bitlen n - 1))"
      using b by (simp add: pow2_nat)
    also have "\<dots> \<le> of_int n" using lo by (simp only: of_int_le_iff)
    also have "\<dots> \<le> q" by (simp add: n_def)
    finally have 1: "2 powi ilog2 q \<le> q" by (simp add: il)
    have "n + 1 \<le> 2 ^ nat (bitlen n)" using hi by simp
    then have "(of_int (n + 1) :: rat) \<le> of_int (2 ^ nat (bitlen n))" by (simp only: of_int_le_iff)
    moreover have "q < of_int (n + 1)" unfolding n_def using floor_correct[of q] by simp
    ultimately have "q < of_int (2 ^ nat (bitlen n))" by linarith
    also have "\<dots> = 2 powi (bitlen n)" using b by (simp add: pow2_nat)
    finally have 2: "q < 2 powi (ilog2 q + 1)" by (simp add: il)
    from 1 2 show ?thesis by simp
  next
    case False
    define n where "n = \<lceil>1 / q\<rceil> - 1"
    have "1 < 1 / q" using False assms by (simp add: field_simps)
    then have n: "0 < n" by (simp add: n_def less_ceiling_iff)
    have b: "1 \<le> bitlen n" using n by (simp add: bitlen_alt_def)
    have il: "ilog2 q = - bitlen n" using False by (simp add: ilog2_def n_def)
    from bitlen_bounds[OF n] have lo: "2 ^ nat (bitlen n - 1) \<le> n" and hi: "n < 2 ^ nat (bitlen n)"
      by auto
    have "1 / q \<le> of_int (n + 1)" by (simp add: n_def)
    also have "n + 1 \<le> 2 ^ nat (bitlen n)" using hi by simp
    then have "(of_int (n + 1) :: rat) \<le> of_int (2 ^ nat (bitlen n))" by (simp only: of_int_le_iff)
    also have "(of_int (2 ^ nat (bitlen n)) :: rat) = 2 powi (bitlen n)" using b by (simp add: pow2_nat)
    finally have "1 / q \<le> 2 powi (bitlen n)" .
    then have 1: "2 powi ilog2 q \<le> q" using assms
      by (simp add: il power_int_minus field_simps)
    have "(2::rat) powi (bitlen n - 1) = of_int (2 ^ nat (bitlen n - 1))"
      using b by (simp add: pow2_nat)
    also have "\<dots> \<le> of_int n" using lo by (simp only: of_int_le_iff)
    also have "(of_int n :: rat) < 1 / q" unfolding n_def using ceiling_correct[of "1 / q"] by simp
    finally have "(2::rat) powi (bitlen n - 1) < 1 / q" .
    then have "q * 2 powi (bitlen n - 1) < 1" using assms by (simp add: field_simps)
    then have "q < 1 / 2 powi (bitlen n - 1)" by (simp add: pos_less_divide_eq)
    also have "1 / 2 powi (bitlen n - 1) = (2::rat) powi (- (bitlen n - 1))"
      by (simp only: power_int_minus divide_inverse mult_1)
    also have "- (bitlen n - 1) = ilog2 q + 1" by (simp add: il)
    finally have 2: "q < 2 powi (ilog2 q + 1)" .
    from 1 2 show ?thesis by simp
  qed
  then show "2 powi ilog2 q \<le> q" and "q < 2 powi (ilog2 q + 1)" by simp_all
qed

lemma ilog2_unique:
  assumes "2 powi k \<le> q" and "q < 2 powi (k + 1)"
  shows "ilog2 q = k"
proof -
  have q: "0 < q" using assms(1) pow2_pos[of k] by linarith
  have "(2::rat) powi ilog2 q < 2 powi (k + 1)" using ilog2_bounds(1)[OF q] assms(2) by linarith
  then have 1: "ilog2 q < k + 1" by (simp only: pow2_less_iff)
  have "(2::rat) powi k < 2 powi (ilog2 q + 1)" using ilog2_bounds(2)[OF q] assms(1) by linarith
  then have 2: "k < ilog2 q + 1" by (simp only: pow2_less_iff)
  from 1 2 show ?thesis by simp
qed

lemma round_double_expo:
  "round_double q = (if q \<le> 0 then 0 else of_int (round_half_even (q / 2 powi expo q)) * 2 powi expo q)"
  by (simp add: round_double_def Let_def)

lemma rhe_cases: "round_half_even x = \<lfloor>x\<rfloor> \<or> round_half_even x = \<lfloor>x\<rfloor> + 1"
  by (simp add: round_half_even_def Let_def)

lemma rhe_of_int [simp]: "round_half_even (of_int n) = n"
  by (simp add: round_half_even_def Let_def)

lemma rhe_ge: "of_int n \<le> x \<Longrightarrow> n \<le> round_half_even x"
  using rhe_cases[of x] by (auto simp: le_floor_iff[symmetric])

lemma rhe_le: "x \<le> of_int n \<Longrightarrow> round_half_even x \<le> n"
proof (cases "x = of_int n")
  case True
  then show ?thesis by simp
next
  case False
  assume "x \<le> of_int n"
  with False have "x < of_int n" by simp
  then have "\<lfloor>x\<rfloor> < n" by (simp add: floor_less_iff)
  then show ?thesis using rhe_cases[of x] by auto
qed

lemma rhe_mono: "x \<le> y \<Longrightarrow> round_half_even x \<le> round_half_even y"
proof -
  assume xy: "x \<le> y"
  have f: "\<lfloor>x\<rfloor> \<le> \<lfloor>y\<rfloor>" using xy by (rule floor_mono)
  show ?thesis
  proof (cases "\<lfloor>x\<rfloor> = \<lfloor>y\<rfloor>")
    case True
    have "x - of_int \<lfloor>x\<rfloor> \<le> y - of_int \<lfloor>y\<rfloor>" using xy True by simp
    then show ?thesis using True
      by (auto simp: round_half_even_def Let_def)
  next
    case False
    with f have "\<lfloor>x\<rfloor> + 1 \<le> \<lfloor>y\<rfloor>" by simp
    then show ?thesis using rhe_cases[of x] rhe_cases[of y] by auto
  qed
qed

lemma rhe_nonneg: "0 \<le> x \<Longrightarrow> 0 \<le> round_half_even x"
  using rhe_ge[of 0 x] by simp

lemma round_double_nonneg: "0 \<le> round_double q"
  by (simp add: round_double_expo rhe_nonneg)

lemma ilog2_mono:
  assumes "0 < p" and "p \<le> q"
  shows "ilog2 p \<le> ilog2 q"
proof -
  have q: "0 < q" using assms by linarith
  have "(2::rat) powi ilog2 p < 2 powi (ilog2 q + 1)"
    using ilog2_bounds(1)[OF assms(1)] ilog2_bounds(2)[OF q] assms(2) by linarith
  then have "ilog2 p < ilog2 q + 1" by (simp only: pow2_less_iff)
  then show ?thesis by simp
qed

lemma expo_mono: "0 < p \<Longrightarrow> p \<le> q \<Longrightarrow> expo p \<le> expo q"
  using ilog2_mono[of p q] by (simp add: expo_def)

lemma expo_ge: "- 1074 \<le> expo q"
  by (simp add: expo_def)

lemma expo_ge_ilog2: "ilog2 q - 52 \<le> expo q"
  by (simp add: expo_def)

text \<open>The scaled value lies below \<open>2^53\<close>, and at or above \<open>2^52\<close> for a normal number.\<close>

lemma scaled_less:
  assumes "0 < q"
  shows "q / 2 powi expo q < 2 ^ 53"
proof -
  have "q < 2 powi (ilog2 q + 1)" using ilog2_bounds(2)[OF assms] .
  also have "\<dots> \<le> 2 powi (expo q + 53)" using expo_ge_ilog2[of q] by (intro pow2_mono) simp
  also have "\<dots> = 2 powi expo q * 2 ^ 53" by (simp add: power_int_add)
  finally show ?thesis by (simp add: field_simps)
qed

lemma scaled_ge:
  assumes "0 < q" and "- 1074 < expo q"
  shows "2 ^ 52 \<le> q / 2 powi expo q"
proof -
  have e: "expo q = ilog2 q - 52" using assms(2) by (simp add: expo_def max_def split: if_splits)
  have "2 powi expo q * 2 ^ 52 = (2::rat) powi (expo q + 52)" by (simp add: power_int_add)
  also have "\<dots> \<le> q" using ilog2_bounds(1)[OF assms(1)] by (simp add: e)
  finally show ?thesis by (simp add: field_simps)
qed

lemma rhe_scaled_le:
  assumes "0 < q"
  shows "round_half_even (q / 2 powi expo q) \<le> 2 ^ 53"
  using scaled_less[OF assms] by (intro rhe_le) simp

lemma round_double_le_pow:
  assumes "0 < q"
  shows "round_double q \<le> 2 powi (expo q + 53)"
proof -
  have "(of_int (round_half_even (q / 2 powi expo q)) :: rat) \<le> of_int (2 ^ 53)"
    using rhe_scaled_le[OF assms] by (simp only: of_int_le_iff)
  then have "of_int (round_half_even (q / 2 powi expo q)) * 2 powi expo q \<le> 2 ^ 53 * (2::rat) powi expo q"
    by (intro mult_right_mono) simp_all
  then show ?thesis using assms by (simp add: round_double_expo power_int_add)
qed

lemma round_double_ge_pow:
  assumes "0 < q" and "- 1074 < expo q"
  shows "2 powi (expo q + 52) \<le> round_double q"
proof -
  have "2 ^ 52 \<le> round_half_even (q / 2 powi expo q)"
    using scaled_ge[OF assms] by (intro rhe_ge) simp
  then have "(of_int (2 ^ 52) :: rat) \<le> of_int (round_half_even (q / 2 powi expo q))"
    by (simp only: of_int_le_iff)
  then have "2 ^ 52 * (2::rat) powi expo q \<le> of_int (round_half_even (q / 2 powi expo q)) * 2 powi expo q"
    by (intro mult_right_mono) simp_all
  then show ?thesis using assms by (simp add: round_double_expo power_int_add)
qed

lemma round_double_mono:
  assumes "p \<le> q"
  shows "round_double p \<le> round_double q"
proof (cases "0 < p")
  case False
  then have "round_double p = 0" by (simp add: round_double_def)
  then show ?thesis using round_double_nonneg[of q] by simp
next
  case True
  then have q: "0 < q" using assms by linarith
  have e: "expo p \<le> expo q" using expo_mono[OF True assms] .
  show ?thesis
  proof (cases "expo p = expo q")
    case True
    have "p / 2 powi expo q \<le> q / 2 powi expo q" using assms by (simp add: divide_right_mono)
    then have "round_half_even (p / 2 powi expo q) \<le> round_half_even (q / 2 powi expo q)"
      by (rule rhe_mono)
    then have "(of_int (round_half_even (p / 2 powi expo q)) :: rat)
               \<le> of_int (round_half_even (q / 2 powi expo q))"
      by (simp only: of_int_le_iff)
    then have "of_int (round_half_even (p / 2 powi expo q)) * (2::rat) powi expo q
               \<le> of_int (round_half_even (q / 2 powi expo q)) * 2 powi expo q"
      by (intro mult_right_mono) simp_all
    then show ?thesis using \<open>0 < p\<close> q True by (simp add: round_double_expo)
  next
    case False
    with e have lt: "expo p < expo q" by simp
    then have "- 1074 < expo q" using expo_ge[of p] by linarith
    then have "2 powi (expo q + 52) \<le> round_double q" using round_double_ge_pow[OF q] by simp
    moreover have "round_double p \<le> 2 powi (expo p + 53)" using round_double_le_pow[OF \<open>0 < p\<close>] .
    moreover have "(2::rat) powi (expo p + 53) \<le> 2 powi (expo q + 52)" using lt by (intro pow2_mono) simp
    ultimately show ?thesis by linarith
  qed
qed


text \<open>Numbers on the grid of their own exponent are fixed by rounding.\<close>

lemma round_double_dyadic:
  assumes "0 < q" and "q = of_int m * 2 powi k" and "expo q \<le> k"
  shows "round_double q = q"
proof -
  have "q / 2 powi expo q = of_int m * (2 powi k / 2 powi expo q)" by (simp add: assms(2))
  also have "2 powi k / 2 powi expo q = (2::rat) powi (k - expo q)"
    by (simp add: power_int_diff)
  also have "\<dots> = 2 ^ nat (k - expo q)" using assms(3) by (simp add: pow2_nat)
  also have "of_int m * 2 ^ nat (k - expo q) = (of_int (m * 2 ^ nat (k - expo q)) :: rat)" by simp
  finally have "round_half_even (q / 2 powi expo q) = m * 2 ^ nat (k - expo q)"
    by (simp only: rhe_of_int)
  then have "round_double q = of_int (m * 2 ^ nat (k - expo q)) * 2 powi expo q"
    using assms(1) by (simp add: round_double_expo)
  also have "\<dots> = of_int m * (2 powi (k - expo q) * 2 powi expo q)"
    using assms(3) by (simp add: pow2_nat)
  also have "2 powi (k - expo q) * 2 powi expo q = (2::rat) powi k"
    by (simp add: power_int_add[symmetric])
  finally show ?thesis by (simp add: assms(2))
qed

lemma round_double_idem: "round_double (round_double q) = round_double q"
proof (cases "0 < round_double q")
  case False
  then have "round_double q = 0" using round_double_nonneg[of q] by linarith
  then show ?thesis by (simp add: round_double_def)
next
  case True
  then have q: "0 < q" by (auto simp: round_double_def split: if_splits)
  define M where "M = round_half_even (q / 2 powi expo q)"
  define r where "r = round_double q"
  have r: "r = of_int M * 2 powi expo q" using q by (simp add: r_def M_def round_double_expo)
  have rpos: "0 < r" using True by (simp add: r_def)
  have M53: "M \<le> 2 ^ 53" unfolding M_def by (rule rhe_scaled_le[OF q])
  show ?thesis
  proof (cases "M = 2 ^ 53")
    case True
    have r2: "r = of_int (2 ^ 52) * 2 powi (expo q + 1)"
      by (simp add: r True power_int_add)
    have "r = 2 powi (expo q + 53)" by (simp add: r True power_int_add)
    then have "ilog2 r = expo q + 53"
      by (intro ilog2_unique) (simp_all add: pow2_less_iff)
    then have "expo r \<le> expo q + 1" using expo_ge[of q] by (simp add: expo_def)
    from round_double_dyadic[OF rpos r2 this] show ?thesis by (simp add: r_def)
  next
    case False
    with M53 have "M < 2 ^ 53" by simp
    then have "M + 1 \<le> 2 ^ 53" by simp
    then have "(of_int (M + 1) :: rat) \<le> of_int (2 ^ 53)" by (simp only: of_int_le_iff)
    then have "(of_int M :: rat) < 2 ^ 53" by simp
    then have "of_int M * 2 powi expo q < 2 ^ 53 * (2::rat) powi expo q"
      by (intro mult_strict_right_mono) simp_all
    then have "r < 2 powi (expo q + 53)" by (simp add: r power_int_add)
    moreover have "2 powi ilog2 r \<le> r" using ilog2_bounds(1)[OF rpos] .
    ultimately have "(2::rat) powi ilog2 r < 2 powi (expo q + 53)" by linarith
    then have "ilog2 r < expo q + 53" by (simp only: pow2_less_iff)
    then have "expo r \<le> expo q" using expo_ge[of q] by (simp add: expo_def)
    from round_double_dyadic[OF rpos r this] show ?thesis by (simp add: r_def)
  qed
qed

lemma round_double_of_int:
  assumes "0 \<le> n" and "n \<le> 2 ^ 53"
  shows "round_double (of_int n) = of_int n"
proof (cases "n = 0")
  case True
  then show ?thesis by (simp add: round_double_def)
next
  case False
  with assms have pos: "(0::rat) < of_int n" by simp
  show ?thesis
  proof (cases "n = 2 ^ 53")
    case True
    have v: "(of_int n :: rat) = of_int (2 ^ 52) * 2 powi 1" by (simp add: True)
    have "(of_int n :: rat) = 2 powi 53" by (simp add: True)
    then have "ilog2 (of_int n) = 53" by (intro ilog2_unique) simp_all
    then have "expo (of_int n) \<le> 1" by (simp add: expo_def)
    from round_double_dyadic[OF pos v this] show ?thesis .
  next
    case False
    with assms have "n + 1 \<le> 2 ^ 53" by simp
    then have "(of_int (n + 1) :: rat) \<le> of_int (2 ^ 53)" by (simp only: of_int_le_iff)
    then have "(of_int n :: rat) < 2 powi 53" by simp
    moreover have "2 powi ilog2 (of_int n) \<le> (of_int n :: rat)" using ilog2_bounds(1)[OF pos] .
    ultimately have "(2::rat) powi ilog2 (of_int n) < 2 powi 53" by linarith
    then have "ilog2 (of_int n) < 53" by (simp only: pow2_less_iff)
    then have e: "expo (of_int n) \<le> 0" by (simp add: expo_def)
    have v: "(of_int n :: rat) = of_int n * 2 powi 0" by simp
    from round_double_dyadic[OF pos v e] show ?thesis .
  qed
qed

lemma round_double_overflow:
  assumes "2 powi 1024 \<le> q"
  shows "2 powi 1024 \<le> round_double q"
proof -
  have pos: "(0::rat) < 2 powi 1024" by simp
  have v: "(2::rat) powi 1024 = of_int (2 ^ 52) * 2 powi 972" by (simp add: power_int_add[symmetric])
  have "ilog2 (2 powi 1024) = 1024" by (intro ilog2_unique) (simp_all add: pow2_less_iff)
  then have "expo (2 powi 1024) \<le> 972" by (simp add: expo_def)
  from round_double_dyadic[OF pos v this] have "round_double (2 powi 1024) = 2 powi 1024" .
  then show ?thesis using round_double_mono[OF assms] by simp
qed

section \<open>Facts about the float operations\<close>

lemma and_then_Inr: "and_then (Inr v) f = f v"
  by (simp add: and_then_def)

lemma and_then_Inl: "and_then (Inl e) f = Inl e"
  by (simp add: and_then_def)

lemma and_then_weak_cong: "m = m' \<Longrightarrow> and_then m f = and_then m' f"
  by simp

lemma and_then_eq_Inr: "and_then m f = Inr y \<longleftrightarrow> (\<exists>v. m = Inr v \<and> f v = Inr y)"
  by (cases m) (simp_all add: and_then_def)

lemma and_then_eq_Inl:
  "and_then m f = Inl e \<longleftrightarrow> m = Inl e \<or> (\<exists>v. m = Inr v \<and> f v = Inl e)"
  by (cases m) (simp_all add: and_then_def)

text \<open>Kernel evaluation of the float operations on numerals.\<close>

lemmas float_eval = float_of_rat_def mk_double_def round_double_def expo_def ilog2_def
  round_half_even_def Let_def floor_rat_numeral_div ceiling_rat_numeral_div
  ceiling_rat_neg_numeral_div compute_bitlen
  float_mul_def float_add_def float_sub_def int_to_float_def int_times_float_def
  float_times_int_def int_truediv_def and_then_Inr and_then_Inl float_le_def

lemma round_double_zero [simp]: "round_double 0 = 0"
  by (simp add: round_double_def)

lemma mk_double_cases:
  "mk_double s q = Infty s
   \<or> (round_double q = 0 \<and> mk_double s q = (if s then NegZero else Fin 0))
   \<or> (0 < round_double q \<and> round_double q < 2 powi 1024
        \<and> mk_double s q = Fin (if s then - round_double q else round_double q))"
  using round_double_nonneg[of q] by (auto simp: mk_double_def Let_def)

lemma mk_double_not_NaN [simp]: "mk_double s q \<noteq> NaN"
  by (simp add: mk_double_def Let_def)

lemma mk_double_zero [simp]: "mk_double s 0 = (if s then NegZero else Fin 0)"
  by (simp add: mk_double_def round_double_def)

lemma mk_double_False:
  "mk_double False q = Infty False
   \<or> (\<exists>r. mk_double False q = Fin r \<and> r = round_double q \<and> 0 \<le> r)"
  using mk_double_cases[of False q] by auto

lemma int_to_float_error: "int_to_float n = Inl e \<Longrightarrow> e = OverflowError"
  by (auto simp: int_to_float_def split: double.splits)

lemma int_to_float_zero [simp]: "int_to_float 0 = Inr (Fin 0)"
  by (simp add: int_to_float_def)

lemma int_to_float_nonneg:
  assumes "0 \<le> n" and "int_to_float n = Inr d"
  shows "\<exists>r. d = Fin r \<and> 0 \<le> r \<and> r = round_double (of_int n)"
proof -
  have "\<not> n < 0" using assms(1) by simp
  then have "int_to_float n = (case mk_double False (of_int n) of
      Infty s \<Rightarrow> Inl OverflowError | d \<Rightarrow> Inr d)"
    using assms(1) by (simp add: int_to_float_def)
  with assms(2) mk_double_False[of "of_int n"] show ?thesis
    by (auto split: double.splits)
qed

lemma int_to_float_exact:
  assumes "0 \<le> n" and "n \<le> 2 ^ 53"
  shows "int_to_float n = Inr (Fin (of_int n))"
proof -
  have r: "round_double (of_int n) = of_int n" using assms by (rule round_double_of_int)
  have "(of_int n :: rat) \<le> of_int (2 ^ 53)" using assms(2) by (simp only: of_int_le_iff)
  also have "(of_int (2 ^ 53) :: rat) < 2 powi 1024" by simp
  finally have lt: "(of_int n :: rat) < 2 powi 1024" .
  have "\<not> n < 0" using assms(1) by simp
  then show ?thesis using r lt assms(1)
    by (simp add: int_to_float_def mk_double_def Let_def)
qed

lemma int_to_float_overflow:
  assumes "2 ^ 1024 \<le> n"
  shows "int_to_float n = Inl OverflowError"
proof -
  have n: "0 \<le> n" using assms by (rule order_trans[rotated]) simp
  have "(of_int (2 ^ 1024) :: rat) \<le> of_int n" using assms by (simp only: of_int_le_iff)
  then have "(2::rat) powi 1024 \<le> of_int n" by simp
  then have "2 powi 1024 \<le> round_double (of_int n)" by (rule round_double_overflow)
  then show ?thesis using n by (simp add: int_to_float_def mk_double_def Let_def)
qed

lemma py_int_error: "py_int x = Inl e \<Longrightarrow> arith_error e"
  by (cases x) (auto simp: arith_error_def)

lemma int_times_float_error: "int_times_float n x = Inl e \<Longrightarrow> arith_error e"
  by (auto simp: int_times_float_def and_then_eq_Inl arith_error_def dest: int_to_float_error)

lemma float_times_int_error: "float_times_int x n = Inl e \<Longrightarrow> arith_error e"
  by (auto simp: float_times_int_def and_then_eq_Inl arith_error_def dest: int_to_float_error)

lemma int_product_error:
  "and_then (int_times_float n x) py_int = Inl e \<Longrightarrow> arith_error e"
  by (auto simp: and_then_eq_Inl dest: int_times_float_error py_int_error)

lemma int_truediv_error: "int_truediv a b = Inl e \<Longrightarrow> b \<noteq> 0 \<Longrightarrow> arith_error e"
  by (auto simp: int_truediv_def arith_error_def split: double.splits)

lemma float_ge0_cases:
  "float_ge0 x \<longleftrightarrow> x = NegZero \<or> x = Infty False \<or> (\<exists>q. x = Fin q \<and> 0 \<le> q)"
  by (cases x) (auto simp: float_ge0_def float_le_def)

text \<open>A non-negative int times a non-negative float, truncated, is a non-negative int.\<close>

lemma int_product_nonneg:
  assumes "0 \<le> n" and "float_ge0 x" and "and_then (int_times_float n x) py_int = Inr k"
  shows "0 \<le> k"
proof -
  from assms(3) obtain d where d: "int_to_float n = Inr d" and k: "py_int (float_mul d x) = Inr k"
    by (auto simp: and_then_eq_Inr int_times_float_def)
  from int_to_float_nonneg[OF assms(1) d] obtain r where r: "d = Fin r" "0 \<le> r" by auto
  from assms(2) consider "x = NegZero" | "x = Infty False" | q where "x = Fin q" "0 \<le> q"
    by (auto simp: float_ge0_cases)
  then show ?thesis
  proof cases
    case 1
    then show ?thesis using k r by (simp add: float_mul_def)
  next
    case 2
    then show ?thesis using k r by (simp add: float_mul_def split: if_splits)
  next
    case 3
    then have "float_mul d x = mk_double False (r * q)" using r by (simp add: float_mul_def)
    with mk_double_False[of "r * q"] k show ?thesis by auto
  qed
qed

text \<open>Zero times any float, truncated, is zero (when it does not raise).\<close>

lemma int_product_zero:
  assumes "and_then (int_times_float 0 x) py_int = Inr k"
  shows "k = 0"
proof -
  from assms have k: "py_int (float_mul (Fin 0) x) = Inr k"
    by (simp add: int_times_float_def and_then_Inr)
  then show ?thesis
    by (cases x) (auto simp: float_mul_def split: if_splits)
qed

lemma zero_times_finite:
  assumes "is_finite x"
  shows "int_times_float 0 x = Inr (if sign x then NegZero else Fin 0)"
  using assms by (cases x) (auto simp: int_times_float_def and_then_Inr float_mul_def)

text \<open>A non-negative int times a finite non-negative float is a non-negative float.\<close>

lemma int_times_float_ge0:
  assumes "0 \<le> n" and "float_ge0 x" and "is_finite x" and "int_times_float n x = Inr p"
  shows "float_ge0 p"
proof -
  from assms(4) obtain d where d: "int_to_float n = Inr d" and p: "p = float_mul d x"
    by (auto simp: and_then_eq_Inr int_times_float_def)
  from int_to_float_nonneg[OF assms(1) d] obtain r where r: "d = Fin r" "0 \<le> r" by auto
  from assms(2,3) consider "x = NegZero" | q where "x = Fin q" "0 \<le> q"
    by (auto simp: float_ge0_cases)
  then show ?thesis
  proof cases
    case 1
    then show ?thesis using p r by (simp add: float_mul_def float_ge0_cases)
  next
    case 2
    then have "p = mk_double False (r * q)" using r p by (simp add: float_mul_def)
    with mk_double_False[of "r * q"] show ?thesis by (auto simp: float_ge0_cases)
  qed
qed

text \<open>\<^verbatim>\<open>1 - a\<close> is non-negative when \<^verbatim>\<open>a <= 1\<close>.\<close>

lemma one_minus_ge0:
  assumes "float_le a (Fin 1)"
  shows "float_ge0 (float_sub (Fin 1) a)"
proof (cases a)
  case (Fin q)
  with assms have q: "q \<le> 1" by (simp add: float_le_def)
  show ?thesis
  proof (cases "q = 1")
    case True
    then show ?thesis using Fin by (simp add: float_sub_def float_add_def float_ge0_cases)
  next
    case False
    with q have lt: "q < 1" by simp
    then have "float_sub (Fin 1) a = mk_double False (1 - q)"
      using Fin by (auto simp: float_sub_def float_add_def Let_def)
    with mk_double_False[of "1 - q"] show ?thesis by (auto simp: float_ge0_cases)
  qed
next
  case NegZero
  then have "float_sub (Fin 1) a = mk_double False 1"
    by (simp add: float_sub_def float_add_def)
  with mk_double_False[of 1] show ?thesis by (auto simp: float_ge0_cases)
next
  case (Infty s)
  with assms have s by (simp add: float_le_def split: if_splits)
  then show ?thesis using Infty by (simp add: float_sub_def float_add_def float_ge0_cases)
next
  case NaN
  with assms show ?thesis by (simp add: float_le_def)
qed

text \<open>Adding a non-negative float to a running non-negative sum does not decrease it.\<close>

lemma float_add_nonneg:
  assumes "nonneg_double c" and "float_ge0 r"
  shows "nonneg_double (float_add c r) \<and> float_le c (float_add c r)"
proof (cases c)
  case (Fin q)
  with assms(1) have q: "0 \<le> q" "round_double q = q" by (simp_all add: nonneg_double_def)
  from assms(2) consider "r = NegZero" | "r = Infty False" | p where "r = Fin p" "0 \<le> p"
    by (auto simp: float_ge0_cases)
  then show ?thesis
  proof cases
    case 1
    have "float_add c r = (if q = 0 then Fin 0 else mk_double (q < 0) \<bar>q\<bar>)"
      using Fin 1 by (simp add: float_add_def)
    also have "\<dots> = (if q = 0 then Fin 0 else mk_double False q)" using q by auto
    finally have e: "float_add c r = (if q = 0 then Fin 0 else mk_double False q)" .
    show ?thesis
    proof (cases "q = 0")
      case True
      then show ?thesis using e Fin q by (simp add: nonneg_double_def float_le_def)
    next
      case False
      with e have e': "float_add c r = mk_double False q" by simp
      from mk_double_False[of q] show ?thesis
        using e' Fin q by (auto simp: nonneg_double_def float_le_def)
    qed
  next
    case 2
    then show ?thesis using Fin by (simp add: float_add_def nonneg_double_def float_le_def)
  next
    case 3
    show ?thesis
    proof (cases "q + p = 0")
      case True
      with q 3 have "q = 0" by linarith
      then show ?thesis using True Fin 3 q
        by (simp add: float_add_def nonneg_double_def float_le_def)
    next
      case False
      with q 3 have pos: "0 < q + p" by linarith
      then have e: "float_add c r = mk_double False (q + p)"
        using Fin 3 False by (auto simp: float_add_def Let_def)
      have "round_double q \<le> round_double (q + p)" using 3 by (intro round_double_mono) simp
      then have ge: "q \<le> round_double (q + p)" using q by simp
      from mk_double_False[of "q + p"] show ?thesis
        using e Fin ge by (auto simp: nonneg_double_def float_le_def round_double_idem)
    qed
  qed
next
  case NegZero
  with assms(1) show ?thesis by (simp add: nonneg_double_def)
next
  case (Infty s)
  with assms(1) have "\<not> s" by (simp add: nonneg_double_def)
  then show ?thesis using Infty assms(2)
    by (auto simp: float_add_def nonneg_double_def float_le_def float_ge0_cases)
next
  case NaN
  with assms(1) show ?thesis by (simp add: nonneg_double_def)
qed

lemma float_add_zero:
  assumes "is_zero r"
  shows "float_add (Fin 0) r = Fin 0"
  using assms by (auto simp: is_zero_def float_add_def)

text \<open>An int up to \<open>2^53\<close> times a float in \<open>[0, 1]\<close>, truncated, stays within the int.\<close>

lemma int_product_le:
  assumes "0 \<le> n" and "n \<le> 2 ^ 53" and "float_ge0 x" and "float_le x (Fin 1)"
    and "and_then (int_times_float n x) py_int = Inr k"
  shows "0 \<le> k \<and> k \<le> n"
proof -
  have k0: "0 \<le> k" using assms(1,3,5) by (rule int_product_nonneg)
  have d: "int_to_float n = Inr (Fin (of_int n))" using assms(1,2) by (rule int_to_float_exact)
  with assms(5) have k: "py_int (float_mul (Fin (of_int n)) x) = Inr k"
    by (simp add: int_times_float_def and_then_Inr)
  from assms(3,4) consider "x = NegZero" | q where "x = Fin q" "0 \<le> q" "q \<le> 1"
    by (auto simp: float_ge0_cases float_le_def)
  then have "k \<le> n"
  proof cases
    case 1
    then show ?thesis using k assms(1) by (simp add: float_mul_def)
  next
    case 2
    have n: "(0::rat) \<le> of_int n" using assms(1) by simp
    have m: "float_mul (Fin (of_int n)) x = mk_double False (of_int n * q)"
      using 2 n by (simp add: float_mul_def)
    have "of_int n * q \<le> of_int n * 1" using 2 n by (intro mult_left_mono) simp_all
    then have "round_double (of_int n * q) \<le> round_double (of_int n)"
      by (intro round_double_mono) simp
    then have le: "round_double (of_int n * q) \<le> of_int n"
      using round_double_of_int[OF assms(1,2)] by simp
    from mk_double_False[of "of_int n * q"] show ?thesis
    proof
      assume "mk_double False (of_int n * q) = Infty False"
      with k m show ?thesis by simp
    next
      assume "\<exists>r. mk_double False (of_int n * q) = Fin r \<and> r = round_double (of_int n * q) \<and> 0 \<le> r"
      then obtain r where r: "mk_double False (of_int n * q) = Fin r"
        "r = round_double (of_int n * q)" "0 \<le> r" by auto
      with k m have "k = \<lfloor>r\<rfloor>" by simp
      moreover have "r \<le> of_int n" using r le by simp
      ultimately show ?thesis by (simp add: floor_le_iff)
    qed
  qed
  with k0 show ?thesis by simp
qed

lemma float_of_rat_ge0: "0 \<le> q \<Longrightarrow> float_ge0 (float_of_rat q)"
  using mk_double_False[of q] by (auto simp: float_of_rat_def float_ge0_cases)

section \<open>Facts about \<^verbatim>\<open>run_simulation\<close>\<close>

text \<open>What one successful iteration of the loop body computes, read off the record.\<close>

lemma month_body_Inr:
  assumes "month_body c m (th, ah, tu, cum) = Inr (r, st')"
  shows "\<exists>naw ah1 nhe.
     MonthlyMetrics.month r = m
   \<and> and_then (int_times_float ah (SimulationConfig.events_per_host_per_month c)) py_int
       = Inr (MonthlyMetrics.events_created r)
   \<and> total_attendees r = MonthlyMetrics.events_created r * avg_attendees_per_event c
   \<and> and_then (int_times_float (total_attendees r)
         (float_sub (Fin 1) (attendees_already_have_app c))) py_int = Inr naw
   \<and> and_then (int_times_float naw (float_of_rat (6 / 10))) py_int
       = Inr (new_app_installs_from_events r)
   \<and> and_then (int_times_float (MonthlyMetrics.events_created r) (post_reveal_upgrade_rate c))
         py_int = Inr (MonthlyMetrics.premium_upgrades r)
   \<and> int_times_float (MonthlyMetrics.premium_upgrades r) (premium_price_gbp c)
       = Inr (revenue_gbp r)
   \<and> cumulative_revenue_gbp r = float_add cum (revenue_gbp r)
   \<and> and_then (int_times_float (MonthlyMetrics.premium_upgrades r) (web_album_share_rate c))
         py_int = Inr (web_albums_shared r)
   \<and> MonthlyMetrics.web_album_views r = web_albums_shared r * non_app_viewers_per_share c
   \<and> and_then (int_times_float (MonthlyMetrics.web_album_views r)
         (web_viewer_download_rate c)) py_int = Inr (web_downloads r)
   \<and> and_then (int_times_float (web_downloads r) (download_to_install_rate c)) py_int
       = Inr (MonthlyMetrics.installs_from_web r)
   \<and> and_then (int_times_float (MonthlyMetrics.installs_from_web r)
         (new_install_becomes_host_rate c)) py_int = Inr (new_hosts_from_web r)
   \<and> and_then (int_times_float ah (host_monthly_retention c)) py_int = Inr ah1
   \<and> and_then (int_times_float (new_app_installs_from_events r) (float_of_rat (2 / 10)))
         py_int = Inr nhe
   \<and> total_hosts r = th + (new_hosts_from_web r + nhe)
   \<and> active_hosts r = ah1 + (new_hosts_from_web r + nhe)
   \<and> total_app_users r
       = tu + (new_app_installs_from_events r + MonthlyMetrics.installs_from_web r)
   \<and> (if MonthlyMetrics.events_created r > 0
       then \<exists>d. int_truediv (MonthlyMetrics.premium_upgrades r)
                  (MonthlyMetrics.events_created r) = Inr d
              \<and> conversion_rate r = PyFloat d
       else conversion_rate r = PyInt 0)
   \<and> (if ah1 > 0
       then \<exists>d. int_truediv (new_hosts_from_web r + nhe) ah1 = Inr d
              \<and> viral_coefficient r = PyFloat d
       else viral_coefficient r = PyInt 0)
   \<and> st' = state_of r"
  using assms
  by (simp add: month_body_def and_then_eq_Inr Let_def state_of_def split: if_splits)
     (auto simp: and_then_eq_Inr)

lemma month_body_state:
  assumes "month_body c m st = Inr (r, st')"
  shows "st' = state_of r" and "MonthlyMetrics.month r = m"
  using month_body_Inr[of c m "fst st" "fst (snd st)" "fst (snd (snd st))" "snd (snd (snd st))" r st']
    assms by auto

text \<open>An iteration that raises, raises OverflowError or ValueError: each division is
  guarded by a test of its denominator.\<close>

lemma month_body_Inl:
  assumes "month_body c m st = Inl e"
  shows "arith_error e"
proof -
  obtain th ah tu cum where st: "st = (th, ah, tu, cum)" by (cases st) auto
  show ?thesis using assms unfolding st
    by (simp add: month_body_def Let_def split: if_splits)
       (auto simp: and_then_eq_Inl split: if_splits
          dest: py_int_error int_times_float_error int_truediv_error)
qed

text \<open>The loop: the records appended are one per month of the range, each computed by
  the loop body from the state that the previous record left.\<close>

lemma sim_loop_Inr:
  "sim_loop c ms st acc = Inr rs \<Longrightarrow>
     \<exists>new. rs = acc @ new \<and> length new = length ms
       \<and> (\<forall>i < length ms.
             month_body c (ms ! i) (if i = 0 then st else state_of (new ! (i - 1)))
               = Inr (new ! i, state_of (new ! i)))"
proof (induction ms arbitrary: st acc)
  case Nil
  then show ?case by simp
next
  case (Cons m ms)
  from Cons.prems obtain r st' where
    step: "month_body c m st = Inr (r, st')" and
    rest: "sim_loop c ms st' (acc @ [r]) = Inr rs"
    by (auto split: sum.splits)
  have st': "st' = state_of r" using step by (rule month_body_state)
  from Cons.IH[OF rest] obtain new where
    new: "rs = (acc @ [r]) @ new" "length new = length ms"
      "\<forall>i < length ms. month_body c (ms ! i) (if i = 0 then st' else state_of (new ! (i - 1)))
         = Inr (new ! i, state_of (new ! i))"
    by blast
  have "\<forall>i < length (m # ms).
      month_body c ((m # ms) ! i) (if i = 0 then st else state_of ((r # new) ! (i - 1)))
        = Inr ((r # new) ! i, state_of ((r # new) ! i))"
  proof (intro allI impI)
    fix i assume i: "i < length (m # ms)"
    show "month_body c ((m # ms) ! i) (if i = 0 then st else state_of ((r # new) ! (i - 1)))
        = Inr ((r # new) ! i, state_of ((r # new) ! i))"
    proof (cases i)
      case 0
      then show ?thesis using step st' by simp
    next
      case (Suc j)
      with i have j: "j < length ms" by simp
      from new(3) j have
        "month_body c (ms ! j) (if j = 0 then st' else state_of (new ! (j - 1)))
           = Inr (new ! j, state_of (new ! j))" by blast
      then show ?thesis using Suc st' by (cases j) simp_all
    qed
  qed
  then show ?case using new(1,2) by (intro exI[of _ "r # new"]) simp
qed

lemma sim_loop_Inl: "sim_loop c ms st acc = Inl e \<Longrightarrow> arith_error e"
proof (induction ms arbitrary: st acc)
  case Nil
  then show ?case by simp
next
  case (Cons m ms)
  then show ?case by (auto split: sum.splits dest: month_body_Inl)
qed

lemma run_simulation_Inr:
  assumes "run_simulation c months = Inr rs"
  shows "length rs = nat months"
    and "i < length rs \<Longrightarrow>
      month_body c (int i + 1) (entering c rs i) = Inr (rs ! i, state_of (rs ! i))"
proof -
  from assms have "sim_loop c [1..months] (initial_state c) [] = Inr rs"
    by (simp add: run_simulation_def initial_state_def)
  from sim_loop_Inr[OF this] have
    len: "length rs = length [1..months]" and
    st: "\<forall>i < length [1..months].
        month_body c ([1..months] ! i) (if i = 0 then initial_state c else state_of (rs ! (i - 1)))
          = Inr (rs ! i, state_of (rs ! i))"
    by auto
  show l: "length rs = nat months" using len by simp
  assume i: "i < length rs"
  then have "1 + int i \<le> months" using l by linarith
  then have "[1..months] ! i = 1 + int i" by (rule nth_upto)
  with st i len show "month_body c (int i + 1) (entering c rs i) = Inr (rs ! i, state_of (rs ! i))"
    by (simp add: entering_def add.commute)
qed

lemma run_simulation_Inl: "run_simulation c months = Inl e \<Longrightarrow> arith_error e"
  by (auto simp: run_simulation_def dest: sim_loop_Inl)

lemma run_simulation_nonpos: "months \<le> 0 \<Longrightarrow> run_simulation c months = Inr []"
  by (simp add: run_simulation_def)


text \<open>With a non-negative configuration, an iteration that starts from non-negative
  active hosts and a non-negative cumulative revenue keeps both non-negative, and does
  not decrease the cumulative revenue.\<close>

lemma month_body_nonneg:
  assumes c: "nonneg_config c" and ah: "0 \<le> ah" and cum: "nonneg_double cum"
    and step: "month_body c m (th, ah, tu, cum) = Inr (r, st')"
  shows "0 \<le> active_hosts r \<and> 0 \<le> MonthlyMetrics.premium_upgrades r
    \<and> nonneg_double (cumulative_revenue_gbp r) \<and> float_le cum (cumulative_revenue_gbp r)"
proof -
  from month_body_Inr[OF step] obtain naw ah1 nhe where
    ev: "and_then (int_times_float ah (SimulationConfig.events_per_host_per_month c)) py_int
       = Inr (MonthlyMetrics.events_created r)" and
    ta: "total_attendees r = MonthlyMetrics.events_created r * avg_attendees_per_event c" and
    naw: "and_then (int_times_float (total_attendees r)
         (float_sub (Fin 1) (attendees_already_have_app c))) py_int = Inr naw" and
    ni: "and_then (int_times_float naw (float_of_rat (6 / 10))) py_int
       = Inr (new_app_installs_from_events r)" and
    up: "and_then (int_times_float (MonthlyMetrics.events_created r) (post_reveal_upgrade_rate c))
         py_int = Inr (MonthlyMetrics.premium_upgrades r)" and
    rev: "int_times_float (MonthlyMetrics.premium_upgrades r) (premium_price_gbp c)
       = Inr (revenue_gbp r)" and
    cr: "cumulative_revenue_gbp r = float_add cum (revenue_gbp r)" and
    sh: "and_then (int_times_float (MonthlyMetrics.premium_upgrades r) (web_album_share_rate c))
         py_int = Inr (web_albums_shared r)" and
    vw: "MonthlyMetrics.web_album_views r = web_albums_shared r * non_app_viewers_per_share c" and
    dl: "and_then (int_times_float (MonthlyMetrics.web_album_views r)
         (web_viewer_download_rate c)) py_int = Inr (web_downloads r)" and
    ins: "and_then (int_times_float (web_downloads r) (download_to_install_rate c)) py_int
       = Inr (MonthlyMetrics.installs_from_web r)" and
    nhw: "and_then (int_times_float (MonthlyMetrics.installs_from_web r)
         (new_install_becomes_host_rate c)) py_int = Inr (new_hosts_from_web r)" and
    ah1: "and_then (int_times_float ah (host_monthly_retention c)) py_int = Inr ah1" and
    nhe: "and_then (int_times_float (new_app_installs_from_events r) (float_of_rat (2 / 10)))
         py_int = Inr nhe" and
    act: "active_hosts r = ah1 + (new_hosts_from_web r + nhe)"
    by blast
  note cfg = c[unfolded nonneg_config_def]
  have e0: "0 \<le> MonthlyMetrics.events_created r"
    using int_product_nonneg[OF ah _ ev] cfg by simp
  have "0 \<le> total_attendees r" using e0 cfg by (simp add: ta)
  then have "0 \<le> naw"
    using int_product_nonneg[OF _ _ naw] one_minus_ge0 cfg by simp
  then have ni0: "0 \<le> new_app_installs_from_events r"
    using int_product_nonneg[OF _ _ ni] float_of_rat_ge0[of "6 / 10"] by simp
  have nhe0: "0 \<le> nhe"
    using int_product_nonneg[OF ni0 _ nhe] float_of_rat_ge0[of "2 / 10"] by simp
  have u0: "0 \<le> MonthlyMetrics.premium_upgrades r"
    using int_product_nonneg[OF e0 _ up] cfg by simp
  have "0 \<le> web_albums_shared r"
    using int_product_nonneg[OF u0 _ sh] cfg by simp
  then have "0 \<le> MonthlyMetrics.web_album_views r" using cfg by (simp add: vw)
  then have "0 \<le> web_downloads r"
    using int_product_nonneg[OF _ _ dl] cfg by simp
  then have "0 \<le> MonthlyMetrics.installs_from_web r"
    using int_product_nonneg[OF _ _ ins] cfg by simp
  then have nhw0: "0 \<le> new_hosts_from_web r"
    using int_product_nonneg[OF _ _ nhw] cfg by simp
  have ah10: "0 \<le> ah1"
    using int_product_nonneg[OF ah _ ah1] cfg by simp
  have a: "0 \<le> active_hosts r" using ah10 nhw0 nhe0 by (simp add: act)
  have "float_ge0 (revenue_gbp r)"
    using int_times_float_ge0[OF u0 _ _ rev] cfg by simp
  from float_add_nonneg[OF cum this] show ?thesis using a u0 by (simp add: cr)
qed

lemma run_simulation_nonneg:
  assumes "nonneg_config c" and "run_simulation c months = Inr rs"
  shows "i < length rs \<Longrightarrow>
    0 \<le> fst (snd (entering c rs i)) \<and> nonneg_double (snd (snd (snd (entering c rs i))))"
proof (induction i)
  case 0
  then show ?case using assms(1)
    by (simp add: entering_def initial_state_def nonneg_config_def nonneg_double_def)
next
  case (Suc i)
  then have i: "i < length rs" by simp
  obtain th ah tu cum where e: "entering c rs i = (th, ah, tu, cum)"
    by (cases "entering c rs i") auto
  from Suc.IH[OF i] e have ah: "0 \<le> ah" and cum: "nonneg_double cum" by simp_all
  from run_simulation_Inr(2)[OF assms(2) i] e
  have "month_body c (int i + 1) (th, ah, tu, cum) = Inr (rs ! i, state_of (rs ! i))" by simp
  from month_body_nonneg[OF assms(1) ah cum this] show ?case
    by (simp add: entering_def state_of_def)
qed

text \<open>Without active hosts and with a finite price, an iteration reports zeros and
  leaves no active host and no revenue.\<close>

lemma month_body_zero:
  assumes price: "is_finite (premium_price_gbp c)"
    and step: "month_body c m (th, 0, tu, Fin 0) = Inr (r, st')"
  shows "MonthlyMetrics.events_created r = 0 \<and> MonthlyMetrics.premium_upgrades r = 0
    \<and> is_zero (revenue_gbp r) \<and> cumulative_revenue_gbp r = Fin 0
    \<and> viral_coefficient r = PyInt 0 \<and> active_hosts r = 0"
proof -
  from month_body_Inr[OF step] obtain naw ah1 nhe where
    ev: "and_then (int_times_float 0 (SimulationConfig.events_per_host_per_month c)) py_int
       = Inr (MonthlyMetrics.events_created r)" and
    ta: "total_attendees r = MonthlyMetrics.events_created r * avg_attendees_per_event c" and
    naw: "and_then (int_times_float (total_attendees r)
         (float_sub (Fin 1) (attendees_already_have_app c))) py_int = Inr naw" and
    ni: "and_then (int_times_float naw (float_of_rat (6 / 10))) py_int
       = Inr (new_app_installs_from_events r)" and
    up: "and_then (int_times_float (MonthlyMetrics.events_created r) (post_reveal_upgrade_rate c))
         py_int = Inr (MonthlyMetrics.premium_upgrades r)" and
    rev: "int_times_float (MonthlyMetrics.premium_upgrades r) (premium_price_gbp c)
       = Inr (revenue_gbp r)" and
    cr: "cumulative_revenue_gbp r = float_add (Fin 0) (revenue_gbp r)" and
    sh: "and_then (int_times_float (MonthlyMetrics.premium_upgrades r) (web_album_share_rate c))
         py_int = Inr (web_albums_shared r)" and
    vw: "MonthlyMetrics.web_album_views r = web_albums_shared r * non_app_viewers_per_share c" and
    dl: "and_then (int_times_float (MonthlyMetrics.web_album_views r)
         (web_viewer_download_rate c)) py_int = Inr (web_downloads r)" and
    ins: "and_then (int_times_float (web_downloads r) (download_to_install_rate c)) py_int
       = Inr (MonthlyMetrics.installs_from_web r)" and
    nhw: "and_then (int_times_float (MonthlyMetrics.installs_from_web r)
         (new_install_becomes_host_rate c)) py_int = Inr (new_hosts_from_web r)" and
    ah1: "and_then (int_times_float 0 (host_monthly_retention c)) py_int = Inr ah1" and
    nhe: "and_then (int_times_float (new_app_installs_from_events r) (float_of_rat (2 / 10)))
         py_int = Inr nhe" and
    act: "active_hosts r = ah1 + (new_hosts_from_web r + nhe)" and
    viral: "if ah1 > 0
       then \<exists>d. int_truediv (new_hosts_from_web r + nhe) ah1 = Inr d
              \<and> viral_coefficient r = PyFloat d
       else viral_coefficient r = PyInt 0"
    by blast
  have e0: "MonthlyMetrics.events_created r = 0" using ev by (rule int_product_zero)
  have "total_attendees r = 0" by (simp add: ta e0)
  then have "naw = 0" using naw int_product_zero by simp
  then have ni0: "new_app_installs_from_events r = 0" using ni int_product_zero by simp
  have nhe0: "nhe = 0" using nhe int_product_zero by (simp add: ni0)
  have u0: "MonthlyMetrics.premium_upgrades r = 0" using up int_product_zero by (simp add: e0)
  have "web_albums_shared r = 0" using sh int_product_zero by (simp add: u0)
  then have "MonthlyMetrics.web_album_views r = 0" by (simp add: vw)
  then have "web_downloads r = 0" using dl int_product_zero by simp
  then have "MonthlyMetrics.installs_from_web r = 0" using ins int_product_zero by simp
  then have nhw0: "new_hosts_from_web r = 0" using nhw int_product_zero by simp
  have ah10: "ah1 = 0" using ah1 by (rule int_product_zero)
  have "revenue_gbp r = (if sign (premium_price_gbp c) then NegZero else Fin 0)"
    using rev zero_times_finite[OF price] by (simp add: u0)
  then have z: "is_zero (revenue_gbp r)" by (simp add: is_zero_def)
  have "cumulative_revenue_gbp r = Fin 0" using float_add_zero[OF z] by (simp add: cr)
  then show ?thesis using e0 u0 z viral ah10 nhw0 nhe0 act by simp
qed

lemma run_simulation_zero:
  assumes "initial_hosts c = 0" and "is_finite (premium_price_gbp c)"
    and "run_simulation c months = Inr rs"
  shows "i < length rs \<Longrightarrow>
    fst (snd (entering c rs i)) = 0 \<and> snd (snd (snd (entering c rs i))) = Fin 0"
proof (induction i)
  case 0
  then show ?case using assms(1) by (simp add: entering_def initial_state_def)
next
  case (Suc i)
  then have i: "i < length rs" by simp
  obtain th ah tu cum where e: "entering c rs i = (th, ah, tu, cum)"
    by (cases "entering c rs i") auto
  from Suc.IH[OF i] e have ah: "ah = 0" and cum: "cum = Fin 0" by simp_all
  from run_simulation_Inr(2)[OF assms(3) i] e ah cum
  have "month_body c (int i + 1) (th, 0, tu, Fin 0) = Inr (rs ! i, state_of (rs ! i))" by simp
  from month_body_zero[OF assms(2) this] show ?case
    by (simp add: entering_def state_of_def)
qed

section \<open>Facts about \<^verbatim>\<open>run_gtm_simulation\<close>\<close>

lemma gtm_phase_month:
  assumes "gtm_phase c t m d s = Inr (d', s')"
  shows "MonthData.month d' = MonthData.month d"
proof -
  obtain su bu tu fu sh oh where s: "s = (su, bu, tu, fu, sh, oh)" by (cases s) auto
  show ?thesis using assms unfolding s
    by (auto simp: gtm_phase_def Let_def and_then_eq_Inr split: if_splits)
qed

lemma gtm_phase_Inl:
  assumes "gtm_phase c t m d s = Inl e"
  shows "arith_error e"
proof -
  obtain su bu tu fu sh oh where s: "s = (su, bu, tu, fu, sh, oh)" by (cases s) auto
  show ?thesis using assms unfolding s
    by (auto simp: gtm_phase_def Let_def and_then_eq_Inl split: if_splits
          dest: py_int_error int_times_float_error)
qed

lemma gtm_b2b_month:
  assumes "gtm_b2b c m d s = Inr (d', s')"
  shows "MonthData.month d' = MonthData.month d"
proof -
  obtain bu oh where s: "s = (bu, oh)" by (cases s) auto
  show ?thesis using assms unfolding s
    by (auto simp: gtm_b2b_def Let_def and_then_eq_Inr split: if_splits)
qed

lemma gtm_b2b_Inl:
  assumes "gtm_b2b c m d s = Inl e"
  shows "arith_error e"
proof -
  obtain bu oh where s: "s = (bu, oh)" by (cases s) auto
  show ?thesis using assms unfolding s
    by (auto simp: gtm_b2b_def Let_def and_then_eq_Inl split: if_splits
          dest: py_int_error int_times_float_error float_times_int_error)
qed

lemma gtm_month_Inr:
  assumes "gtm_month c t m st = Inr (d, st')"
  shows "MonthData.month d = m"
    and "cumulative_revenue d = float_add (gtm_cum st) (revenue d)"
    and "gtm_cum st' = cumulative_revenue d"
proof -
  obtain su bu tu fu wu sh oh cum where st: "st = (su, bu, tu, fu, wu, sh, oh, cum)"
    by (cases st) auto
  from assms have
    "\<exists>d1 s1 d2 s2.
       gtm_phase c t m (new_MonthData m []) (su, bu, tu, fu, sh, oh) = Inr (d1, s1)
       \<and> gtm_b2b c m d1 (fst (snd s1), snd (snd (snd (snd (snd s1))))) = Inr (d2, s2)
       \<and> MonthData.month d = MonthData.month d2
       \<and> cumulative_revenue d = float_add cum (revenue d)
       \<and> gtm_cum st' = cumulative_revenue d"
    unfolding st
    by (simp add: gtm_month_def Let_def and_then_eq_Inr gtm_cum_def split: prod.splits)
       (auto simp: and_then_eq_Inr)
  then obtain d1 s1 d2 s2 where
    p: "gtm_phase c t m (new_MonthData m []) (su, bu, tu, fu, sh, oh) = Inr (d1, s1)" and
    b: "gtm_b2b c m d1 (fst (snd s1), snd (snd (snd (snd (snd s1))))) = Inr (d2, s2)" and
    r: "MonthData.month d = MonthData.month d2"
      "cumulative_revenue d = float_add cum (revenue d)"
      "gtm_cum st' = cumulative_revenue d"
    by blast
  have "MonthData.month d = m"
    using r(1) gtm_b2b_month[OF b] gtm_phase_month[OF p] by (simp add: new_MonthData_def)
  with r have
    "MonthData.month d = m \<and> cumulative_revenue d = float_add cum (revenue d)
     \<and> gtm_cum st' = cumulative_revenue d" by simp
  then show "MonthData.month d = m"
    and "cumulative_revenue d = float_add (gtm_cum st) (revenue d)"
    and "gtm_cum st' = cumulative_revenue d"
    by (simp_all add: st gtm_cum_def)
qed

lemma gtm_month_Inl:
  assumes "gtm_month c t m st = Inl e"
  shows "arith_error e"
proof -
  obtain su bu tu fu wu sh oh cum where st: "st = (su, bu, tu, fu, wu, sh, oh, cum)"
    by (cases st) auto
  show ?thesis using assms unfolding st
    by (simp add: gtm_month_def Let_def split: prod.splits)
       (auto simp: and_then_eq_Inl split: prod.splits
          dest: py_int_error int_times_float_error gtm_phase_Inl gtm_b2b_Inl)
qed

lemma gtm_loop_Inr:
  "gtm_loop c t ms st acc = Inr rs \<Longrightarrow>
     \<exists>new. rs = acc @ new \<and> length new = length ms
       \<and> (\<forall>i < length ms. MonthData.month (new ! i) = ms ! i
             \<and> cumulative_revenue (new ! i)
                 = float_add (if i = 0 then gtm_cum st else cumulative_revenue (new ! (i - 1)))
                     (revenue (new ! i)))"
proof (induction ms arbitrary: st acc)
  case Nil
  then show ?case by simp
next
  case (Cons m ms)
  from Cons.prems obtain d st' where
    step: "gtm_month c t m st = Inr (d, st')" and
    rest: "gtm_loop c t ms st' (acc @ [d]) = Inr rs"
    by (auto split: sum.splits)
  note facts = gtm_month_Inr[OF step]
  from Cons.IH[OF rest] obtain new where
    new: "rs = (acc @ [d]) @ new" "length new = length ms"
      "\<forall>i < length ms. MonthData.month (new ! i) = ms ! i
         \<and> cumulative_revenue (new ! i)
             = float_add (if i = 0 then gtm_cum st' else cumulative_revenue (new ! (i - 1)))
                 (revenue (new ! i))"
    by blast
  have "\<forall>i < length (m # ms). MonthData.month ((d # new) ! i) = (m # ms) ! i
      \<and> cumulative_revenue ((d # new) ! i)
          = float_add (if i = 0 then gtm_cum st else cumulative_revenue ((d # new) ! (i - 1)))
              (revenue ((d # new) ! i))"
  proof (intro allI impI)
    fix i assume i: "i < length (m # ms)"
    show "MonthData.month ((d # new) ! i) = (m # ms) ! i
      \<and> cumulative_revenue ((d # new) ! i)
          = float_add (if i = 0 then gtm_cum st else cumulative_revenue ((d # new) ! (i - 1)))
              (revenue ((d # new) ! i))"
    proof (cases i)
      case 0
      then show ?thesis using facts by simp
    next
      case (Suc j)
      with i have j: "j < length ms" by simp
      from new(3) j have "MonthData.month (new ! j) = ms ! j
         \<and> cumulative_revenue (new ! j)
             = float_add (if j = 0 then gtm_cum st' else cumulative_revenue (new ! (j - 1)))
                 (revenue (new ! j))" by blast
      then show ?thesis using Suc facts(3) by (cases j) simp_all
    qed
  qed
  then show ?case using new(1,2) by (intro exI[of _ "d # new"]) simp
qed

lemma gtm_loop_Inl: "gtm_loop c t ms st acc = Inl e \<Longrightarrow> arith_error e"
proof (induction ms arbitrary: st acc)
  case Nil
  then show ?case by simp
next
  case (Cons m ms)
  then show ?case by (auto split: sum.splits dest: gtm_month_Inl)
qed

text \<open>The scenario dict has exactly the three keys.\<close>

lemma tiktok_installs_of_Inr:
  "tiktok_installs_of c s = Inr n \<longleftrightarrow>
     (s = ''low'' \<and> n = tiktok_monthly_installs_low c)
   \<or> (s = ''mid'' \<and> n = tiktok_monthly_installs_mid c)
   \<or> (s = ''high'' \<and> n = tiktok_monthly_installs_high c)"
  by (auto simp: tiktok_installs_of_def)

lemma tiktok_installs_of_Inl:
  "tiktok_installs_of c s = Inl e \<longleftrightarrow>
     e = KeyError \<and> s \<noteq> ''low'' \<and> s \<noteq> ''mid'' \<and> s \<noteq> ''high''"
  by (auto simp: tiktok_installs_of_def)

lemma run_gtm_simulation_Inr:
  assumes "run_gtm_simulation c months s = Inr rs"
  shows "length rs = nat months"
    and "i < length rs \<Longrightarrow> MonthData.month (rs ! i) = int i + 1"
    and "i < length rs \<Longrightarrow> cumulative_revenue (rs ! i)
           = float_add (if i = 0 then Fin 0 else cumulative_revenue (rs ! (i - 1)))
               (revenue (rs ! i))"
proof -
  from assms obtain t where
    "gtm_loop c t [1..months] (0, 0, 0, 0, 0, 0, 0, Fin 0) [] = Inr rs"
    by (auto simp: run_gtm_simulation_def and_then_eq_Inr)
  from gtm_loop_Inr[OF this] have
    len: "length rs = length [1..months]" and
    st: "\<forall>i < length [1..months]. MonthData.month (rs ! i) = [1..months] ! i
        \<and> cumulative_revenue (rs ! i)
            = float_add (if i = 0 then gtm_cum (0, 0, 0, 0, 0, 0, 0, Fin 0)
                          else cumulative_revenue (rs ! (i - 1))) (revenue (rs ! i))"
    by auto
  show l: "length rs = nat months" using len by simp
  {
    assume i: "i < length rs"
    then have "1 + int i \<le> months" using l by linarith
    then have "[1..months] ! i = 1 + int i" by (rule nth_upto)
    with st i len show "MonthData.month (rs ! i) = int i + 1" by simp
  }
  {
    assume i: "i < length rs"
    with st len show "cumulative_revenue (rs ! i)
           = float_add (if i = 0 then Fin 0 else cumulative_revenue (rs ! (i - 1)))
               (revenue (rs ! i))"
      by (simp add: gtm_cum_def)
  }
qed

lemma run_gtm_simulation_Inl:
  assumes "run_gtm_simulation c months s = Inl e"
  shows "arith_error e \<or> (e = KeyError \<and> s \<noteq> ''low'' \<and> s \<noteq> ''mid'' \<and> s \<noteq> ''high'')"
  using assms
  by (auto simp: run_gtm_simulation_def and_then_eq_Inl tiktok_installs_of_Inl
        dest: gtm_loop_Inl)

lemma run_gtm_simulation_nonpos:
  assumes "months \<le> 0" and "s = ''low'' \<or> s = ''mid'' \<or> s = ''high''"
  shows "run_gtm_simulation c months s = Inr []"
  using assms by (auto simp: run_gtm_simulation_def tiktok_installs_of_def and_then_Inr)

text \<open>The loop body never reads the three presets: it takes the selected count as its
  argument.\<close>

lemma gtm_phase_presets:
  "gtm_phase (c\<lparr>tiktok_monthly_installs_low := a, tiktok_monthly_installs_mid := b,
      tiktok_monthly_installs_high := d\<rparr>) t = gtm_phase c t"
  by (simp add: gtm_phase_def cong: if_cong)

lemma gtm_b2b_presets:
  "gtm_b2b (c\<lparr>tiktok_monthly_installs_low := a, tiktok_monthly_installs_mid := b,
      tiktok_monthly_installs_high := d\<rparr>) = gtm_b2b c"
  by (simp add: gtm_b2b_def cong: if_cong)

lemma gtm_month_presets:
  "gtm_month (c\<lparr>tiktok_monthly_installs_low := a, tiktok_monthly_installs_mid := b,
      tiktok_monthly_installs_high := d\<rparr>) t = gtm_month c t"
  by (simp add: gtm_month_def gtm_phase_presets gtm_b2b_presets cong: if_cong)

lemma gtm_loop_presets:
  "gtm_loop (c\<lparr>tiktok_monthly_installs_low := a, tiktok_monthly_installs_mid := b,
      tiktok_monthly_installs_high := d\<rparr>) t ms st acc = gtm_loop c t ms st acc"
  by (induction ms arbitrary: st acc) (simp_all add: gtm_month_presets split: sum.splits)

text \<open>A list of running sums is the list of the float sums of the prefixes.\<close>

lemma float_sum_snoc: "float_sum (xs @ [x]) = float_add (float_sum xs) x"
  by (simp add: float_sum_def)

lemma prefix_sums:
  assumes "\<forall>i < length cs. cs ! i = float_add (if i = 0 then Fin 0 else cs ! (i - 1)) (vs ! i)"
    and "length vs = length cs"
  shows "m < length cs \<Longrightarrow> cs ! m = float_sum (take (m + 1) vs)"
proof (induction m)
  case 0
  then have "take (0 + 1) vs = [vs ! 0]" using assms(2) by (cases vs) simp_all
  then show ?case using assms(1) 0 by (simp add: float_sum_def)
next
  case (Suc m)
  then have m: "m < length cs" by simp
  have "take (Suc m + 1) vs = take (m + 1) vs @ [vs ! (Suc m)]"
    using Suc.prems assms(2) by (simp add: take_Suc_conv_app_nth)
  then have "float_sum (take (Suc m + 1) vs) = float_add (float_sum (take (m + 1) vs)) (vs ! Suc m)"
    by (simp only: float_sum_snoc)
  also have "\<dots> = float_add (cs ! m) (vs ! Suc m)" using Suc.IH[OF m] by simp
  also have "\<dots> = cs ! Suc m" using assms(1) Suc.prems by simp
  finally show ?case by simp
qed

text \<open>The selected install count is what the phases report as new TikTok users, and the
  new users of all channels are what the user pools grow by.\<close>

lemma gtm_phase_b2b:
  assumes "gtm_phase c t m (new_MonthData m []) (su, bu, tu, fu, sh, oh)
      = Inr (d1, su1, bu1, tu1, fu1, sh1, oh1)"
    and "gtm_b2b c m d1 (bu1, oh1) = Inr (d2, bu2, oh2)"
  shows "tiktok_of_month t m (new_users_from_tiktok d2)
    \<and> su1 + bu2 + tu1 + fu1
        = (if m = 1 then 0 else su) + bu + tu + fu + new_users_from_seed d2
          + new_users_from_b2b d2 + new_users_from_tiktok d2 + new_users_from_festival d2
    \<and> MonthData.installs_from_web d2 = 0"
proof -
  consider "m \<le> 2" | "2 < m \<and> m \<le> 4" | "m = 5" | "m = 6" | "m = 7" | "7 < m" by linarith
  then show ?thesis
  proof cases
    case 1
    then show ?thesis using assms
      by (auto simp: gtm_phase_def gtm_b2b_def new_MonthData_def tiktok_of_month_def Let_def
            split: if_splits)
  next
    case 2
    then show ?thesis using assms
      by (auto simp: gtm_phase_def gtm_b2b_def new_MonthData_def tiktok_of_month_def Let_def
            and_then_eq_Inr)
  next
    case 3
    then show ?thesis using assms
      by (auto simp: gtm_phase_def gtm_b2b_def new_MonthData_def tiktok_of_month_def Let_def
            and_then_eq_Inr)
  next
    case 4
    then show ?thesis using assms
      by (auto simp: gtm_phase_def gtm_b2b_def new_MonthData_def tiktok_of_month_def Let_def
            and_then_eq_Inr)
  next
    case 5
    then show ?thesis using assms
      by (auto simp: gtm_phase_def gtm_b2b_def new_MonthData_def tiktok_of_month_def Let_def
            and_then_eq_Inr)
  next
    case 6
    then show ?thesis using assms
      by (auto simp: gtm_phase_def gtm_b2b_def new_MonthData_def tiktok_of_month_def Let_def
            and_then_eq_Inr)
  qed
qed

lemma gtm_month_users:
  assumes "gtm_month c t m st = Inr (d, st')"
  shows "tiktok_of_month t m (new_users_from_tiktok d)"
    and "total_users d = gtm_total st'"
    and "gtm_total st' = gtm_total st - (if m = 1 then gtm_seed st else 0) + new_users d"
proof -
  obtain su bu tu fu wu sh oh cum where st: "st = (su, bu, tu, fu, wu, sh, oh, cum)"
    by (cases st) auto
  from assms have
    "\<exists>d1 su1 bu1 tu1 fu1 sh1 oh1 d2 bu2 oh2 wi.
       gtm_phase c t m (new_MonthData m []) (su, bu, tu, fu, sh, oh)
         = Inr (d1, su1, bu1, tu1, fu1, sh1, oh1)
       \<and> gtm_b2b c m d1 (bu1, oh1) = Inr (d2, bu2, oh2)
       \<and> new_users_from_seed d = new_users_from_seed d2
       \<and> new_users_from_b2b d = new_users_from_b2b d2
       \<and> new_users_from_tiktok d = new_users_from_tiktok d2
       \<and> new_users_from_festival d = new_users_from_festival d2
       \<and> MonthData.installs_from_web d = wi
       \<and> total_users d = su1 + bu2 + tu1 + fu1 + (wu + wi)
       \<and> gtm_total st' = su1 + bu2 + tu1 + fu1 + (wu + wi)"
    unfolding st
    by (simp add: gtm_month_def Let_def and_then_eq_Inr gtm_total_def split: prod.splits)
       (auto simp: and_then_eq_Inr)
  then obtain d1 su1 bu1 tu1 fu1 sh1 oh1 d2 bu2 oh2 wi where
    p: "gtm_phase c t m (new_MonthData m []) (su, bu, tu, fu, sh, oh)
         = Inr (d1, su1, bu1, tu1, fu1, sh1, oh1)" and
    b: "gtm_b2b c m d1 (bu1, oh1) = Inr (d2, bu2, oh2)" and
    f: "new_users_from_seed d = new_users_from_seed d2"
       "new_users_from_b2b d = new_users_from_b2b d2"
       "new_users_from_tiktok d = new_users_from_tiktok d2"
       "new_users_from_festival d = new_users_from_festival d2"
       "MonthData.installs_from_web d = wi" and
    t: "total_users d = su1 + bu2 + tu1 + fu1 + (wu + wi)"
       "gtm_total st' = su1 + bu2 + tu1 + fu1 + (wu + wi)"
    by blast
  note pb = gtm_phase_b2b[OF p b]
  show "tiktok_of_month t m (new_users_from_tiktok d)" using pb f by simp
  show "total_users d = gtm_total st'" using t by simp
  show "gtm_total st' = gtm_total st - (if m = 1 then gtm_seed st else 0) + new_users d"
    using pb f t by (simp add: st gtm_total_def gtm_seed_def new_users_def)
qed

lemma gtm_loop_steps:
  "gtm_loop c t ms st acc = Inr rs \<Longrightarrow>
     \<exists>new sts. rs = acc @ new \<and> length new = length ms \<and> length sts = length ms
       \<and> (\<forall>i < length ms.
             gtm_month c t (ms ! i) (if i = 0 then st else sts ! (i - 1))
               = Inr (new ! i, sts ! i))"
proof (induction ms arbitrary: st acc)
  case Nil
  then show ?case by simp
next
  case (Cons m ms)
  from Cons.prems obtain d st' where
    step: "gtm_month c t m st = Inr (d, st')" and
    rest: "gtm_loop c t ms st' (acc @ [d]) = Inr rs"
    by (auto split: sum.splits)
  from Cons.IH[OF rest] obtain new sts where
    new: "rs = (acc @ [d]) @ new" "length new = length ms" "length sts = length ms"
      "\<forall>i < length ms. gtm_month c t (ms ! i) (if i = 0 then st' else sts ! (i - 1))
         = Inr (new ! i, sts ! i)"
    by blast
  have "\<forall>i < length (m # ms).
      gtm_month c t ((m # ms) ! i) (if i = 0 then st else (st' # sts) ! (i - 1))
        = Inr ((d # new) ! i, (st' # sts) ! i)"
  proof (intro allI impI)
    fix i assume i: "i < length (m # ms)"
    show "gtm_month c t ((m # ms) ! i) (if i = 0 then st else (st' # sts) ! (i - 1))
        = Inr ((d # new) ! i, (st' # sts) ! i)"
    proof (cases i)
      case 0
      then show ?thesis using step by simp
    next
      case (Suc j)
      with i have j: "j < length ms" by simp
      from new(4) j have
        "gtm_month c t (ms ! j) (if j = 0 then st' else sts ! (j - 1)) = Inr (new ! j, sts ! j)"
        by blast
      then show ?thesis using Suc by (cases j) simp_all
    qed
  qed
  then show ?case using new(1,2,3)
    by (intro exI[of _ "d # new"] exI[of _ "st' # sts"]) simp
qed

lemma run_gtm_simulation_users:
  assumes "tiktok_installs_of c s = Inr t" and "run_gtm_simulation c months s = Inr ds"
    and "i < length ds"
  shows "tiktok_of_month t (int i + 1) (new_users_from_tiktok (ds ! i))"
    and "total_users (ds ! i)
          = (if i = 0 then 0 else total_users (ds ! (i - 1))) + new_users (ds ! i)"
proof -
  from assms(1,2) have "gtm_loop c t [1..months] (0, 0, 0, 0, 0, 0, 0, Fin 0) [] = Inr ds"
    by (simp add: run_gtm_simulation_def and_then_Inr)
  from gtm_loop_steps[OF this] obtain sts where
    len: "length ds = length [1..months]" "length sts = length [1..months]" and
    st: "\<forall>i < length [1..months].
        gtm_month c t ([1..months] ! i)
          (if i = 0 then (0, 0, 0, 0, 0, 0, 0, Fin 0) else sts ! (i - 1))
          = Inr (ds ! i, sts ! i)"
    by auto
  have mon: "[1..months] ! j = int j + 1" if "j < length ds" for j
  proof -
    from that len have "1 + int j \<le> months" by simp
    then have "[1..months] ! j = 1 + int j" by (rule nth_upto)
    then show ?thesis by simp
  qed
  have step: "gtm_month c t (int j + 1)
      (if j = 0 then (0, 0, 0, 0, 0, 0, 0, Fin 0) else sts ! (j - 1)) = Inr (ds ! j, sts ! j)"
    if "j < length ds" for j
  proof -
    from that len have "j < length [1..months]" by simp
    with st have "gtm_month c t ([1..months] ! j)
        (if j = 0 then (0, 0, 0, 0, 0, 0, 0, Fin 0) else sts ! (j - 1)) = Inr (ds ! j, sts ! j)"
      by blast
    then show ?thesis by (simp only: mon[OF that])
  qed
  show "tiktok_of_month t (int i + 1) (new_users_from_tiktok (ds ! i))"
    using gtm_month_users(1)[OF step[OF assms(3)]] .
  show "total_users (ds ! i)
          = (if i = 0 then 0 else total_users (ds ! (i - 1))) + new_users (ds ! i)"
  proof (cases i)
    case 0
    with step[OF assms(3)] have
      s0: "gtm_month c t 1 (0, 0, 0, 0, 0, 0, 0, Fin 0) = Inr (ds ! 0, sts ! 0)" by simp
    from gtm_month_users(2,3)[OF s0] show ?thesis using 0
      by (simp add: gtm_total_def gtm_seed_def)
  next
    case (Suc j)
    then have j: "j < length ds" using assms(3) by simp
    from step[OF assms(3)] Suc have
      s1: "gtm_month c t (int (Suc j) + 1) (sts ! j) = Inr (ds ! Suc j, sts ! Suc j)" by simp
    have prev: "total_users (ds ! j) = gtm_total (sts ! j)"
      using gtm_month_users(2)[OF step[OF j]] .
    from gtm_month_users(2,3)[OF s1] prev show ?thesis using Suc by simp
  qed
qed

text \<open>Float addition is exact on non-negative integers up to \<open>2^53\<close>, and so is the running
  float sum of a list of them.\<close>

lemma float_add_exact_int:
  assumes "0 \<le> a" and "0 \<le> b" and "a + b \<le> 2 ^ 53"
  shows "float_add (Fin (of_int a)) (Fin (of_int b)) = Fin (of_int (a + b))"
proof (cases "a + b = 0")
  case True
  with assms have "a = 0" "b = 0" by simp_all
  then show ?thesis by (simp add: float_add_def)
next
  case False
  with assms have pos: "0 < a + b" by simp
  have r: "round_double (of_int (a + b)) = of_int (a + b)"
    using assms by (intro round_double_of_int) simp_all
  have "(of_int (a + b) :: rat) \<le> of_int (2 ^ 53)" using assms(3) by (simp only: of_int_le_iff)
  also have "(of_int (2 ^ 53) :: rat) < 2 powi 1024" by simp
  finally have lt: "(of_int (a + b) :: rat) < 2 powi 1024" .
  have ne: "(of_int a :: rat) + of_int b \<noteq> 0" using pos
    by (metis of_int_add of_int_0_eq_iff less_irrefl)
  have nn: "\<not> (of_int a :: rat) + of_int b < 0" using assms(1,2) by simp
  have ab: "\<bar>(of_int a :: rat) + of_int b\<bar> = of_int (a + b)" using assms(1,2) by simp
  have "float_add (Fin (of_int a)) (Fin (of_int b)) = mk_double False (of_int (a + b))"
    using ne nn ab by (simp add: float_add_def Let_def)
  also have "\<dots> = Fin (of_int (a + b))"
    using r lt pos by (simp add: mk_double_def Let_def)
  finally show ?thesis .
qed

lemma float_sum_exact_aux:
  "(\<forall>x \<in> set xs. \<exists>n \<ge> 0. x = Fin (of_int n)) \<Longrightarrow> sum_list (map val xs) \<le> 2 ^ 53 \<Longrightarrow>
     \<exists>N \<ge> 0. sum_list (map val xs) = of_int N \<and> float_sum xs = Fin (of_int N)"
proof (induction xs rule: rev_induct)
  case Nil
  then show ?case by (intro exI[of _ 0]) (simp add: float_sum_def)
next
  case (snoc x xs)
  from snoc.prems(1) obtain n where n: "0 \<le> n" "x = Fin (of_int n)" by auto
  have xs: "\<forall>x \<in> set xs. \<exists>n \<ge> 0. x = Fin (of_int n)" using snoc.prems(1) by simp
  have le: "sum_list (map val xs) + of_int n \<le> 2 ^ 53" using snoc.prems(2) n by simp
  then have "sum_list (map val xs) \<le> 2 ^ 53" using n(1) by simp
  from snoc.IH[OF xs this] obtain N where
    N: "0 \<le> N" "sum_list (map val xs) = of_int N" "float_sum xs = Fin (of_int N)" by blast
  from le N(2) have "(of_int (N + n) :: rat) \<le> of_int (2 ^ 53)" by simp
  then have b: "N + n \<le> 2 ^ 53" by (simp only: of_int_le_iff)
  have "float_sum (xs @ [x]) = Fin (of_int (N + n))"
    using float_add_exact_int[OF N(1) n(1) b] by (simp add: float_sum_snoc N(3) n(2))
  moreover have "sum_list (map val (xs @ [x])) = of_int (N + n)" using N(2) n(2) by simp
  ultimately show ?case using N(1) n(1) by (intro exI[of _ "N + n"]) simp
qed

lemma float_sum_exact:
  assumes "\<forall>x \<in> set xs. \<exists>n \<ge> 0. x = Fin (of_int n)" and "sum_list (map val xs) \<le> 2 ^ 53"
  shows "float_sum xs = Fin (sum_list (map val xs))"
  using float_sum_exact_aux[OF assms] by auto

lemma nonneg_integral_int:
  assumes "nonneg_integral x"
  shows "\<exists>n \<ge> 0. x = Fin (of_int n)"
proof -
  from assms obtain q where q: "x = Fin q" "0 \<le> q" "of_int \<lfloor>q\<rfloor> = q"
    by (cases x) (simp_all add: nonneg_integral_def del: of_int_floor_cancel)
  from q(2) have "0 \<le> \<lfloor>q\<rfloor>" by simp
  moreover from q(1,3) have "x = Fin (of_int \<lfloor>q\<rfloor>)" by (simp only:)
  ultimately show ?thesis by blast
qed

lemma float_sum_integral:
  assumes "list_all nonneg_integral xs" and "sum_list (map val xs) \<le> 2 ^ 53"
  shows "float_sum xs = Fin (sum_list (map val xs))"
proof -
  from assms(1) have "\<forall>x \<in> set xs. \<exists>n \<ge> 0. x = Fin (of_int n)"
    by (simp add: list_all_iff nonneg_integral_int)
  from float_sum_exact[OF this assms(2)] show ?thesis .
qed
section \<open>Concrete runs\<close>

lemma upto_1_2: "[1..2] = [1, 2]"
  by (simp add: upto_rec1)

lemma upto_1_3: "[1..3] = [1, 2, 3]"
  by (simp add: upto_rec1)

lemma upto_1_7: "[1..7] = [1, 2, 3, 4, 5, 6, 7]"
  by (simp add: upto_rec1)

text \<open>The first two months of the default configuration.\<close>

lemma default_run1:
  "run_simulation default_SimulationConfig 1 =
   Inr [\<lparr>MonthlyMetrics.month = 1, total_hosts = 76, active_hosts = 68,
         total_app_users = 186, events_created = 40, total_attendees = 320,
         new_app_installs_from_events = 134, premium_upgrades = 10,
         revenue_gbp = Fin (2811231329897677 / 35184372088832),
         cumulative_revenue_gbp = Fin (2811231329897677 / 35184372088832),
         web_albums_shared = 7, web_album_views = 35, web_downloads = 14,
         installs_from_web = 2, new_hosts_from_web = 0,
         conversion_rate = PyFloat (Fin (1 / 4)),
         viral_coefficient = PyFloat (Fin (1393971313233725 / 2251799813685248))\<rparr>]"
  by (simp add: run_simulation_def month_body_def default_SimulationConfig_def float_eval
        cong: and_then_weak_cong)

lemma default_run2:
  "run_simulation default_SimulationConfig 2 =
   Inr [\<lparr>MonthlyMetrics.month = 1, total_hosts = 76, active_hosts = 68,
         total_app_users = 186, events_created = 40, total_attendees = 320,
         new_app_installs_from_events = 134, premium_upgrades = 10,
         revenue_gbp = Fin (2811231329897677 / 35184372088832),
         cumulative_revenue_gbp = Fin (2811231329897677 / 35184372088832),
         web_albums_shared = 7, web_album_views = 35, web_downloads = 14,
         installs_from_web = 2, new_hosts_from_web = 0,
         conversion_rate = PyFloat (Fin (1 / 4)),
         viral_coefficient = PyFloat (Fin (1393971313233725 / 2251799813685248))\<rparr>,
        \<lparr>MonthlyMetrics.month = 2, total_hosts = 112, active_hosts = 93,
         total_app_users = 369, events_created = 54, total_attendees = 432,
         new_app_installs_from_events = 181, premium_upgrades = 13,
         revenue_gbp = Fin (913650182216745 / 8796093022208),
         cumulative_revenue_gbp = Fin (6465832058764657 / 35184372088832),
         web_albums_shared = 9, web_album_views = 45, web_downloads = 18,
         installs_from_web = 2, new_hosts_from_web = 0,
         conversion_rate = PyFloat (Fin (8673599282343177 / 36028797018963968)),
         viral_coefficient = PyFloat (Fin (2844378712023471 / 4503599627370496))\<rparr>]"
  by (simp add: run_simulation_def month_body_def default_SimulationConfig_def float_eval
        upto_1_2 cong: and_then_weak_cong)

text \<open>The first two months of the default go-to-market configuration.\<close>

lemma default_gtm_run2:
  "run_gtm_simulation default_GTMConfig 2 ''mid'' =
   Inr [\<lparr>MonthData.month = 1, phase = ''Seed (Friends)'',
         new_users_from_seed = 50, new_users_from_b2b = 0,
         new_users_from_tiktok = 0, new_users_from_festival = 0,
         total_users = 53, active_users = 48, events_created = 55,
         premium_upgrades = 19,
         revenue = Fin (2670669763402793 / 17592186044416),
         cumulative_revenue = Fin (2670669763402793 / 17592186044416),
         web_album_views = 65, installs_from_web = 3\<rparr>,
        \<lparr>MonthData.month = 2, phase = ''Seed (Friends)'',
         new_users_from_seed = 0, new_users_from_b2b = 0,
         new_users_from_tiktok = 0, new_users_from_festival = 0,
         total_users = 56, active_users = 46, events_created = 50,
         premium_upgrades = 17,
         revenue = Fin (4779093260826051 / 35184372088832),
         cumulative_revenue = Fin (2530108196907909 / 8796093022208),
         web_album_views = 55, installs_from_web = 3\<rparr>]"
  by (simp add: run_gtm_simulation_def tiktok_installs_of_def gtm_month_def gtm_phase_def
        gtm_b2b_def new_MonthData_def default_GTMConfig_def float_eval upto_1_2
        cong: and_then_weak_cong)

text \<open>A host count beyond the float range makes the first product raise.\<close>

lemma run_simulation_overflow:
  assumes "2 ^ 1024 \<le> initial_hosts c" and "1 \<le> months"
  shows "run_simulation c months = Inl OverflowError"
proof -
  have "[1..months] = 1 # [2..months]" using assms(2) by (simp add: upto_rec1)
  moreover have "int_times_float (initial_hosts c) x = Inl OverflowError" for x
    using int_to_float_overflow[OF assms(1)] by (simp add: int_times_float_def and_then_Inl)
  ultimately show ?thesis
    by (simp add: run_simulation_def month_body_def and_then_Inl cong: and_then_weak_cong)
qed

text \<open>The first month of the default configuration without any initial host.\<close>

lemma zero_hosts_run1:
  "run_simulation (default_SimulationConfig\<lparr>initial_hosts := 0\<rparr>) 1 =
   Inr [\<lparr>MonthlyMetrics.month = 1, total_hosts = 0, active_hosts = 0,
         total_app_users = 0, events_created = 0, total_attendees = 0,
         new_app_installs_from_events = 0, premium_upgrades = 0,
         revenue_gbp = Fin 0, cumulative_revenue_gbp = Fin 0,
         web_albums_shared = 0, web_album_views = 0, web_downloads = 0,
         installs_from_web = 0, new_hosts_from_web = 0,
         conversion_rate = PyInt 0, viral_coefficient = PyInt 0\<rparr>]"
  by (simp add: run_simulation_def month_body_def default_SimulationConfig_def float_eval
        cong: and_then_weak_cong)

text \<open>Beyond \<open>2^53\<close> the conversion of a count to float can round up: \<open>2^53 + 3\<close> hosts
  at one event per host create \<open>2^53 + 4\<close> events.\<close>

lemma events_exceed_hosts_beyond_2_53:
  "and_then (int_times_float (2 ^ 53 + 3) (Fin 1)) py_int = Inr (2 ^ 53 + 4)"
  by (simp add: float_eval)

text \<open>The revenues of the first three months of the default configuration.\<close>

lemma default_run3:
  "\<exists>rs. run_simulation default_SimulationConfig 3 = Inr rs
     \<and> map revenue_gbp rs
         = [Fin (2811231329897677 / 35184372088832), Fin (913650182216745 / 8796093022208),
            Fin (2530108196907909 / 17592186044416)]
     \<and> map cumulative_revenue_gbp rs
         = [Fin (2811231329897677 / 35184372088832), Fin (6465832058764657 / 35184372088832),
            Fin (2881512113145119 / 8796093022208)]"
  by (simp add: run_simulation_def month_body_def default_SimulationConfig_def float_eval
        upto_1_3 cong: and_then_weak_cong)

text \<open>The revenues of the first two months at a price of 8.\<close>

lemma price8_run2:
  "\<exists>rs. run_simulation (default_SimulationConfig\<lparr>premium_price_gbp := Fin 8\<rparr>) 2 = Inr rs
     \<and> map revenue_gbp rs = [Fin 80, Fin 104]
     \<and> map cumulative_revenue_gbp rs = [Fin 80, Fin 184]"
  by (simp add: run_simulation_def month_body_def default_SimulationConfig_def float_eval
        upto_1_2 cong: and_then_weak_cong)

text \<open>The first seven months of the default go-to-market configuration in the scenario
  \<^verbatim>\<open>"high"\<close>: the new TikTok users, the new users of all channels and the total users.\<close>

lemma default_gtm_high7:
  "\<exists>ds. run_gtm_simulation default_GTMConfig 7 ''high'' = Inr ds
     \<and> map new_users_from_tiktok ds = [0, 0, 0, 0, 500, 1000, 1000]
     \<and> map new_users ds = [53, 3, 203, 203, 705, 1208, 1912]
     \<and> map total_users ds = [53, 56, 259, 462, 1167, 2375, 4287]"
  by (simp add: run_gtm_simulation_def tiktok_installs_of_def gtm_month_def gtm_phase_def
        gtm_b2b_def new_MonthData_def default_GTMConfig_def new_users_def float_eval upto_1_7
        cong: and_then_weak_cong)

text \<open>The revenues of the first two months of the go-to-market run at a price of 8.\<close>

lemma gtm_price8_run2:
  "\<exists>ds. run_gtm_simulation (default_GTMConfig\<lparr>premium_price := Fin 8\<rparr>) 2 ''mid'' = Inr ds
     \<and> map revenue ds = [Fin 152, Fin 136]
     \<and> map cumulative_revenue ds = [Fin 152, Fin 288]"
  by (simp add: run_gtm_simulation_def tiktok_installs_of_def gtm_month_def gtm_phase_def
        gtm_b2b_def new_MonthData_def default_GTMConfig_def float_eval upto_1_2
        cong: and_then_weak_cong)
section \<open>The claims\<close>

text \<open>
  Claim C1, as amended. \<^verbatim>\<open>run_simulation\<close> returns the empty list for every
  configuration when \<open>months \<le> 0\<close>. Whenever it returns, the list has \<open>months\<close> records
  and the \<open>i\<close>-th record (1-based) has month \<open>i\<close>. It does not return for every input:
  a conversion between int and float can raise OverflowError or ValueError, and nothing
  else is raised. The same holds for \<^verbatim>\<open>run_gtm_simulation\<close> when the scenario is one of
  \<^verbatim>\<open>"low"\<close>, \<^verbatim>\<open>"mid"\<close>, \<^verbatim>\<open>"high"\<close>; any other scenario raises KeyError, for every
  months value, also a non-positive one.
\<close>

theorem run_length_and_month:
  "(months \<le> 0 \<longrightarrow> run_simulation c months = Inr [])
   \<and> (\<forall>rs. run_simulation c months = Inr rs \<longrightarrow>
         length rs = nat months
         \<and> (\<forall>i < length rs. MonthlyMetrics.month (rs ! i) = int i + 1))
   \<and> (\<forall>e. run_simulation c months = Inl e \<longrightarrow> e = OverflowError \<or> e = ValueError)
   \<and> (months \<le> 0 \<and> (s = ''low'' \<or> s = ''mid'' \<or> s = ''high'') \<longrightarrow>
         run_gtm_simulation g months s = Inr [])
   \<and> (\<forall>ds. run_gtm_simulation g months s = Inr ds \<longrightarrow>
         length ds = nat months
         \<and> (\<forall>i < length ds. MonthData.month (ds ! i) = int i + 1))
   \<and> (\<forall>e. run_gtm_simulation g months s = Inl e \<longrightarrow>
         e = OverflowError \<or> e = ValueError
         \<or> (e = KeyError \<and> s \<noteq> ''low'' \<and> s \<noteq> ''mid'' \<and> s \<noteq> ''high''))
   \<and> (s \<noteq> ''low'' \<and> s \<noteq> ''mid'' \<and> s \<noteq> ''high'' \<longrightarrow>
         run_gtm_simulation g months s = Inl KeyError)"
proof (intro conjI allI impI)
  assume "months \<le> 0"
  then show "run_simulation c months = Inr []" by (rule run_simulation_nonpos)
next
  fix rs assume rs: "run_simulation c months = Inr rs"
  show "length rs = nat months" using rs by (rule run_simulation_Inr(1))
  fix i assume "i < length rs"
  from run_simulation_Inr(2)[OF rs this] show "MonthlyMetrics.month (rs ! i) = int i + 1"
    by (rule month_body_state(2))
next
  fix e assume "run_simulation c months = Inl e"
  then show "e = OverflowError \<or> e = ValueError"
    using run_simulation_Inl[of c months e] by (simp add: arith_error_def)
next
  assume "months \<le> 0 \<and> (s = ''low'' \<or> s = ''mid'' \<or> s = ''high'')"
  then show "run_gtm_simulation g months s = Inr []"
    using run_gtm_simulation_nonpos[of months s g] by simp
next
  fix ds assume ds: "run_gtm_simulation g months s = Inr ds"
  show "length ds = nat months" using ds by (rule run_gtm_simulation_Inr(1))
  fix i assume "i < length ds"
  then show "MonthData.month (ds ! i) = int i + 1" by (rule run_gtm_simulation_Inr(2)[OF ds])
next
  fix e assume "run_gtm_simulation g months s = Inl e"
  then show "e = OverflowError \<or> e = ValueError
      \<or> (e = KeyError \<and> s \<noteq> ''low'' \<and> s \<noteq> ''mid'' \<and> s \<noteq> ''high'')"
    using run_gtm_simulation_Inl[of g months s e] by (auto simp: arith_error_def)
next
  assume "s \<noteq> ''low'' \<and> s \<noteq> ''mid'' \<and> s \<noteq> ''high''"
  then have "tiktok_installs_of g s = Inl KeyError" by (simp add: tiktok_installs_of_Inl)
  then show "run_gtm_simulation g months s = Inl KeyError"
    by (simp add: run_gtm_simulation_def and_then_Inl)
qed

text \<open>The theorem at the default configurations: no months, two months, a host count too
  large for a float, and a scenario that is not a key of the dict.\<close>

theorem run_length_and_month_witness:
  "run_simulation default_SimulationConfig 0 = Inr []
   \<and> (\<exists>rs. run_simulation default_SimulationConfig 2 = Inr rs \<and> length rs = 2
         \<and> MonthlyMetrics.month (rs ! 0) = 1 \<and> MonthlyMetrics.month (rs ! 1) = 2)
   \<and> run_simulation (default_SimulationConfig\<lparr>initial_hosts := 2 ^ 1024\<rparr>) 2
       = Inl OverflowError
   \<and> run_gtm_simulation default_GTMConfig 0 ''mid'' = Inr []
   \<and> (\<exists>ds. run_gtm_simulation default_GTMConfig 2 ''mid'' = Inr ds \<and> length ds = 2
         \<and> MonthData.month (ds ! 0) = 1 \<and> MonthData.month (ds ! 1) = 2)
   \<and> run_gtm_simulation default_GTMConfig 2 ''viral'' = Inl KeyError
   \<and> run_gtm_simulation default_GTMConfig 0 ''viral'' = Inl KeyError"
proof -
  have a: "run_simulation default_SimulationConfig 0 = Inr []"
    and b: "run_gtm_simulation default_GTMConfig 0 ''mid'' = Inr []"
    using run_length_and_month[of 0 default_SimulationConfig "''mid''" default_GTMConfig]
    by simp_all
  obtain rs where rs: "run_simulation default_SimulationConfig 2 = Inr rs"
    using default_run2 by blast
  obtain ds where ds: "run_gtm_simulation default_GTMConfig 2 ''mid'' = Inr ds"
    using default_gtm_run2 by blast
  have c: "length rs = 2 \<and> MonthlyMetrics.month (rs ! 0) = 1 \<and> MonthlyMetrics.month (rs ! 1) = 2"
    and d: "length ds = 2 \<and> MonthData.month (ds ! 0) = 1 \<and> MonthData.month (ds ! 1) = 2"
    using run_length_and_month[of 2 default_SimulationConfig "''mid''" default_GTMConfig] rs ds
    by auto
  have e: "run_simulation (default_SimulationConfig\<lparr>initial_hosts := 2 ^ 1024\<rparr>) 2
      = Inl OverflowError"
    by (rule run_simulation_overflow) simp_all
  have k: "run_gtm_simulation default_GTMConfig 2 ''viral'' = Inl KeyError"
    using run_length_and_month[of 2 default_SimulationConfig "''viral''" default_GTMConfig]
    by simp
  have k0: "run_gtm_simulation default_GTMConfig 0 ''viral'' = Inl KeyError"
    using run_length_and_month[of 0 default_SimulationConfig "''viral''" default_GTMConfig]
    by simp
  from a b c d e k k0 rs ds show ?thesis by blast
qed

text \<open>The claim as stated fails: ten to the 400 initial hosts is a well-formed int, and the
  first product of the first month raises OverflowError (int too large to convert to
  float), so no sequence is returned.\<close>

theorem run_length_counterexample:
  "run_simulation (default_SimulationConfig\<lparr>initial_hosts := 10 ^ 400\<rparr>) 1
     = Inl OverflowError"
  by (rule run_simulation_overflow) simp_all

text \<open>
  Claim C2. \<^verbatim>\<open>run_simulation\<close> is a function of its two arguments. Each record of the
  result is what the loop body computes from the configuration and the running state
  entering its month: the initial state for the first record, and otherwise the total
  hosts, active hosts, total app users and cumulative revenue of the previous record.
  The month number enters the record only as its \<^verbatim>\<open>month\<close> field.
\<close>

theorem run_simulation_deterministic:
  "(c = c' \<and> months = months' \<longrightarrow> run_simulation c months = run_simulation c' months')
   \<and> (run_simulation c months = Inr rs \<and> i < length rs \<longrightarrow>
         month_body c (int i + 1) (entering c rs i) = Inr (rs ! i, state_of (rs ! i)))
   \<and> (month_body c m st = Inr (r, st') \<longrightarrow>
         month_body c m' st = Inr (r\<lparr>MonthlyMetrics.month := m'\<rparr>, st'))"
proof (intro conjI impI)
  assume "c = c' \<and> months = months'"
  then show "run_simulation c months = run_simulation c' months'" by simp
next
  assume "run_simulation c months = Inr rs \<and> i < length rs"
  then show "month_body c (int i + 1) (entering c rs i) = Inr (rs ! i, state_of (rs ! i))"
    using run_simulation_Inr(2) by blast
next
  assume a: "month_body c m st = Inr (r, st')"
  obtain th ah tu cum where st: "st = (th, ah, tu, cum)" by (cases st) auto
  have "month_body c m' st
      = map_sum id (\<lambda>(r, s). (r\<lparr>MonthlyMetrics.month := m'\<rparr>, s)) (month_body c m st)"
    unfolding st
    by (simp add: month_body_def and_then_def Let_def split: sum.splits)
  with a show "month_body c m' st = Inr (r\<lparr>MonthlyMetrics.month := m'\<rparr>, st')" by simp
qed

text \<open>The theorem at the default configuration and two months: the second record is
  computed from the state that the first record left.\<close>

theorem run_simulation_deterministic_witness:
  "\<exists>rs. run_simulation default_SimulationConfig 2 = Inr rs \<and> 1 < length rs
     \<and> month_body default_SimulationConfig 2 (76, 68, 186, Fin (2811231329897677 / 35184372088832))
         = Inr (rs ! 1, state_of (rs ! 1))
     \<and> month_body default_SimulationConfig 7 (76, 68, 186, Fin (2811231329897677 / 35184372088832))
         = Inr ((rs ! 1)\<lparr>MonthlyMetrics.month := 7\<rparr>, state_of (rs ! 1))"
proof -
  obtain rs where rs: "run_simulation default_SimulationConfig 2 = Inr rs"
    using default_run2 by blast
  with default_run2 have l: "1 < length rs"
    and e: "entering default_SimulationConfig rs 1
      = (76, 68, 186, Fin (2811231329897677 / 35184372088832))"
    by (auto simp: entering_def state_of_def)
  note t = run_simulation_deterministic[of default_SimulationConfig default_SimulationConfig
      2 2 rs 1 2 "entering default_SimulationConfig rs 1" "rs ! 1" "state_of (rs ! 1)" 7]
  from t rs l have s: "month_body default_SimulationConfig 2 (entering default_SimulationConfig rs 1)
      = Inr (rs ! 1, state_of (rs ! 1))" by simp
  with t have "month_body default_SimulationConfig 7 (entering default_SimulationConfig rs 1)
      = Inr ((rs ! 1)\<lparr>MonthlyMetrics.month := 7\<rparr>, state_of (rs ! 1))" by simp
  with s rs l e show ?thesis by auto
qed



text \<open>
  Claim C4, as amended. No division of \<^verbatim>\<open>run_simulation\<close> raises ZeroDivisionError: the
  conversion rate is the quotient of premium upgrades by events created when events
  created is positive, and the int 0 otherwise; the viral coefficient is the quotient of
  the new hosts of the month by the active hosts less the new hosts when that is
  positive, and the int 0 otherwise. The new hosts of a month are the increase of total
  hosts over the state entering the month. The function can still fail, with
  OverflowError or ValueError from a conversion between int and float.
\<close>

theorem guarded_divisions:
  "run_simulation c months \<noteq> Inl ZeroDivisionError
   \<and> (run_simulation c months = Inr rs \<and> i < length rs \<longrightarrow>
        (if MonthlyMetrics.events_created (rs ! i) > 0
         then \<exists>d. int_truediv (MonthlyMetrics.premium_upgrades (rs ! i))
                    (MonthlyMetrics.events_created (rs ! i)) = Inr d
                \<and> conversion_rate (rs ! i) = PyFloat d
         else conversion_rate (rs ! i) = PyInt 0)
      \<and> (let new_hosts = total_hosts (rs ! i) - fst (entering c rs i);
              denominator = active_hosts (rs ! i) - new_hosts
          in if denominator > 0
             then \<exists>d. int_truediv new_hosts denominator = Inr d
                    \<and> viral_coefficient (rs ! i) = PyFloat d
             else viral_coefficient (rs ! i) = PyInt 0))"
proof (intro conjI impI)
  show "run_simulation c months \<noteq> Inl ZeroDivisionError"
    using run_simulation_Inl[of c months ZeroDivisionError] by (auto simp: arith_error_def)
next
  assume a: "run_simulation c months = Inr rs \<and> i < length rs"
  obtain th ah tu cum where e: "entering c rs i = (th, ah, tu, cum)"
    by (cases "entering c rs i") auto
  from a have "month_body c (int i + 1) (th, ah, tu, cum) = Inr (rs ! i, state_of (rs ! i))"
    using run_simulation_Inr(2)[of c months rs i] e by simp
  from month_body_Inr[OF this] obtain ah1 nhe where
    conv: "if MonthlyMetrics.events_created (rs ! i) > 0
       then \<exists>d. int_truediv (MonthlyMetrics.premium_upgrades (rs ! i))
                  (MonthlyMetrics.events_created (rs ! i)) = Inr d
              \<and> conversion_rate (rs ! i) = PyFloat d
       else conversion_rate (rs ! i) = PyInt 0" and
    th: "total_hosts (rs ! i) = th + (new_hosts_from_web (rs ! i) + nhe)" and
    ah: "active_hosts (rs ! i) = ah1 + (new_hosts_from_web (rs ! i) + nhe)" and
    viral: "if ah1 > 0
       then \<exists>d. int_truediv (new_hosts_from_web (rs ! i) + nhe) ah1 = Inr d
              \<and> viral_coefficient (rs ! i) = PyFloat d
       else viral_coefficient (rs ! i) = PyInt 0"
    by blast
  show "if MonthlyMetrics.events_created (rs ! i) > 0
         then \<exists>d. int_truediv (MonthlyMetrics.premium_upgrades (rs ! i))
                    (MonthlyMetrics.events_created (rs ! i)) = Inr d
                \<and> conversion_rate (rs ! i) = PyFloat d
         else conversion_rate (rs ! i) = PyInt 0"
    using conv .
  have n: "total_hosts (rs ! i) - fst (entering c rs i) = new_hosts_from_web (rs ! i) + nhe"
    using th e by simp
  have d: "active_hosts (rs ! i) - (new_hosts_from_web (rs ! i) + nhe) = ah1"
    using ah by simp
  show "let new_hosts = total_hosts (rs ! i) - fst (entering c rs i);
            denominator = active_hosts (rs ! i) - new_hosts
        in if denominator > 0
           then \<exists>d. int_truediv new_hosts denominator = Inr d
                  \<and> viral_coefficient (rs ! i) = PyFloat d
           else viral_coefficient (rs ! i) = PyInt 0"
    unfolding Let_def n d using viral .
qed

text \<open>The theorem at the first month of the default configuration (10 upgrades out of 40
  events, 26 new hosts for 42 retained hosts), and at a configuration without hosts,
  where both denominators are zero.\<close>

theorem guarded_divisions_witness:
  "(\<exists>r. run_simulation default_SimulationConfig 1 = Inr [r]
      \<and> int_truediv 10 40 = Inr (Fin (1 / 4)) \<and> conversion_rate r = PyFloat (Fin (1 / 4))
      \<and> int_truediv 26 42 = Inr (Fin (1393971313233725 / 2251799813685248))
      \<and> viral_coefficient r = PyFloat (Fin (1393971313233725 / 2251799813685248)))
   \<and> (\<exists>r. run_simulation (default_SimulationConfig\<lparr>initial_hosts := 0\<rparr>) 1 = Inr [r]
      \<and> conversion_rate r = PyInt 0 \<and> viral_coefficient r = PyInt 0)"
proof -
  obtain r where r: "run_simulation default_SimulationConfig 1 = Inr [r]"
    using default_run1 by blast
  with default_run1 have f: "MonthlyMetrics.events_created r = 40"
    "MonthlyMetrics.premium_upgrades r = 10" "total_hosts r = 76" "active_hosts r = 68"
    "conversion_rate r = PyFloat (Fin (1 / 4))"
    "viral_coefficient r = PyFloat (Fin (1393971313233725 / 2251799813685248))"
    by auto
  have e: "fst (entering default_SimulationConfig [r] 0) = 50"
    by (simp add: entering_def initial_state_def default_SimulationConfig_def)
  from guarded_divisions[of default_SimulationConfig 1 "[r]" 0] r f e
  have 1: "int_truediv 10 40 = Inr (Fin (1 / 4))
      \<and> int_truediv 26 42 = Inr (Fin (1393971313233725 / 2251799813685248))"
    by (simp add: Let_def)
  obtain z where z: "run_simulation (default_SimulationConfig\<lparr>initial_hosts := 0\<rparr>) 1 = Inr [z]"
    using zero_hosts_run1 by blast
  with zero_hosts_run1 have g: "MonthlyMetrics.events_created z = 0" "total_hosts z = 0"
    "active_hosts z = 0" by auto
  have e0: "fst (entering (default_SimulationConfig\<lparr>initial_hosts := 0\<rparr>) [z] 0) = 0"
    by (simp add: entering_def initial_state_def)
  from guarded_divisions[of "default_SimulationConfig\<lparr>initial_hosts := 0\<rparr>" 1 "[z]" 0] z g e0
  have 2: "conversion_rate z = PyInt 0 \<and> viral_coefficient z = PyInt 0"
    by (simp add: Let_def)
  from 1 2 r z f show ?thesis by blast
qed

text \<open>The claim as stated fails: with an upgrade rate that is NaN, well-formed as a
  float, \<^verbatim>\<open>int(events_created * rate)\<close> raises ValueError in the first month.\<close>

theorem never_fails_counterexample:
  "run_simulation (default_SimulationConfig\<lparr>post_reveal_upgrade_rate := NaN\<rparr>) 1
     = Inl ValueError"
  by (simp add: run_simulation_def month_body_def default_SimulationConfig_def float_eval
        cong: and_then_weak_cong)

text \<open>
  Claim C5. With 50 initial hosts, 0.8 events per host and month, an upgrade rate of 0.25
  and a price of 7.99, the first record has 40 events created, 10 premium upgrades and a
  revenue of 79.9, the float that \<^verbatim>\<open>10 * 7.99\<close> rounds to.
\<close>

theorem first_month_scenario:
  "initial_hosts c = 50
   \<and> SimulationConfig.events_per_host_per_month c = float_of_rat (8 / 10)
   \<and> post_reveal_upgrade_rate c = float_of_rat (25 / 100)
   \<and> premium_price_gbp c = float_of_rat (799 / 100)
   \<and> 1 \<le> months \<and> run_simulation c months = Inr rs \<longrightarrow>
     MonthlyMetrics.events_created (rs ! 0) = 40
   \<and> MonthlyMetrics.premium_upgrades (rs ! 0) = 10
   \<and> revenue_gbp (rs ! 0) = float_of_rat (799 / 10)"
proof (intro impI)
  assume a: "initial_hosts c = 50
   \<and> SimulationConfig.events_per_host_per_month c = float_of_rat (8 / 10)
   \<and> post_reveal_upgrade_rate c = float_of_rat (25 / 100)
   \<and> premium_price_gbp c = float_of_rat (799 / 100)
   \<and> 1 \<le> months \<and> run_simulation c months = Inr rs"
  then have rs: "run_simulation c months = Inr rs" by simp
  have l: "0 < length rs" using run_simulation_Inr(1)[OF rs] a by simp
  have "month_body c 1 (50, 50, 50, Fin 0) = Inr (rs ! 0, state_of (rs ! 0))"
    using run_simulation_Inr(2)[OF rs l] a by (simp add: entering_def initial_state_def)
  from month_body_Inr[OF this] have
    e: "and_then (int_times_float 50 (SimulationConfig.events_per_host_per_month c)) py_int
       = Inr (MonthlyMetrics.events_created (rs ! 0))" and
    u: "and_then (int_times_float (MonthlyMetrics.events_created (rs ! 0))
         (post_reveal_upgrade_rate c)) py_int = Inr (MonthlyMetrics.premium_upgrades (rs ! 0))" and
    v: "int_times_float (MonthlyMetrics.premium_upgrades (rs ! 0)) (premium_price_gbp c)
       = Inr (revenue_gbp (rs ! 0))"
    by blast+
  have "and_then (int_times_float 50 (float_of_rat (8 / 10))) py_int = Inr 40"
    by (simp add: float_eval)
  with e a have e': "MonthlyMetrics.events_created (rs ! 0) = 40" by simp
  have "and_then (int_times_float 40 (float_of_rat (25 / 100))) py_int = Inr 10"
    by (simp add: float_eval)
  with u a e' have u': "MonthlyMetrics.premium_upgrades (rs ! 0) = 10" by simp
  have "int_times_float 10 (float_of_rat (799 / 100)) = Inr (float_of_rat (799 / 10))"
    by (simp add: float_eval)
  with v a u' have "revenue_gbp (rs ! 0) = float_of_rat (799 / 10)" by simp
  with e' u' show "MonthlyMetrics.events_created (rs ! 0) = 40
   \<and> MonthlyMetrics.premium_upgrades (rs ! 0) = 10
   \<and> revenue_gbp (rs ! 0) = float_of_rat (799 / 10)" by simp
qed

text \<open>The theorem at the default configuration, which has these four values, run for
  two months.\<close>

theorem first_month_scenario_witness:
  "\<exists>rs. run_simulation default_SimulationConfig 2 = Inr rs
     \<and> MonthlyMetrics.events_created (rs ! 0) = 40
     \<and> MonthlyMetrics.premium_upgrades (rs ! 0) = 10
     \<and> revenue_gbp (rs ! 0) = float_of_rat (799 / 10)
     \<and> float_of_rat (799 / 10) = Fin (2811231329897677 / 35184372088832)"
proof -
  obtain rs where rs: "run_simulation default_SimulationConfig 2 = Inr rs"
    using default_run2 by blast
  have "float_of_rat (799 / 10) = Fin (2811231329897677 / 35184372088832)"
    by (simp add: float_eval)
  with first_month_scenario[of default_SimulationConfig 2 rs] rs show ?thesis
    by (simp add: default_SimulationConfig_def)
qed

text \<open>
  Claim C6, as amended. For every configuration whose counts, rates and price are
  non-negative (with \<^verbatim>\<open>attendees_already_have_app <= 1\<close> and a finite price) and every
  months value, the cumulative revenue is non-decreasing along the returned sequence:
  each record's \<^verbatim>\<open>cumulative_revenue_gbp\<close> is \<^verbatim>\<open><=\<close> that of the next record, in the
  float comparison of Python.
\<close>

theorem cumulative_revenue_nondecreasing:
  "nonneg_config c \<and> run_simulation c months = Inr rs \<and> i + 1 < length rs \<longrightarrow>
     float_le (cumulative_revenue_gbp (rs ! i)) (cumulative_revenue_gbp (rs ! (i + 1)))"
proof (rule impI)
  assume a: "nonneg_config c \<and> run_simulation c months = Inr rs \<and> i + 1 < length rs"
  then have c: "nonneg_config c" and rs: "run_simulation c months = Inr rs"
    and i: "i + 1 < length rs" by simp_all
  obtain th ah tu cum where e: "entering c rs (i + 1) = (th, ah, tu, cum)"
    by (cases "entering c rs (i + 1)") auto
  then have cum: "cum = cumulative_revenue_gbp (rs ! i)"
    by (simp add: entering_def state_of_def)
  from run_simulation_nonneg[OF c rs i] e have ah: "0 \<le> ah" and n: "nonneg_double cum"
    by simp_all
  from run_simulation_Inr(2)[OF rs i] e
  have "month_body c (int (i + 1) + 1) (th, ah, tu, cum)
      = Inr (rs ! (i + 1), state_of (rs ! (i + 1)))" by simp
  from month_body_nonneg[OF c ah n this] show
    "float_le (cumulative_revenue_gbp (rs ! i)) (cumulative_revenue_gbp (rs ! (i + 1)))"
    by (simp add: cum)
qed

text \<open>The theorem at the default configuration: 79.9 after the first month, 183.77 after
  the second.\<close>

theorem cumulative_revenue_nondecreasing_witness:
  "nonneg_config default_SimulationConfig
   \<and> (\<exists>rs. run_simulation default_SimulationConfig 2 = Inr rs \<and> 0 + 1 < length rs
         \<and> cumulative_revenue_gbp (rs ! 0) = Fin (2811231329897677 / 35184372088832)
         \<and> cumulative_revenue_gbp (rs ! 1) = Fin (6465832058764657 / 35184372088832)
         \<and> float_le (cumulative_revenue_gbp (rs ! 0)) (cumulative_revenue_gbp (rs ! (0 + 1))))"
proof -
  have n: "nonneg_config default_SimulationConfig"
    by (simp add: nonneg_config_def default_SimulationConfig_def float_ge0_def float_eval)
  obtain rs where rs: "run_simulation default_SimulationConfig 2 = Inr rs"
    using default_run2 by blast
  with default_run2 have l: "0 + 1 < length rs"
    and v: "cumulative_revenue_gbp (rs ! 0) = Fin (2811231329897677 / 35184372088832)"
      "cumulative_revenue_gbp (rs ! 1) = Fin (6465832058764657 / 35184372088832)"
    by auto
  from cumulative_revenue_nondecreasing[of default_SimulationConfig 2 rs 0] n rs l
  have "float_le (cumulative_revenue_gbp (rs ! 0)) (cumulative_revenue_gbp (rs ! (0 + 1)))"
    by blast
  with n rs l v show ?thesis by blast
qed

text \<open>The claim as stated fails for a configuration with a negative price: with the
  default configuration at a price of \<open>-7.99\<close> the cumulative revenue is \<open>-79.9\<close> after the
  first month and \<open>-183.77\<close> after the second.\<close>

theorem cumulative_revenue_counterexample:
  "map_sum id (map cumulative_revenue_gbp)
     (run_simulation (default_SimulationConfig\<lparr>premium_price_gbp := float_of_rat (- 799 / 100)\<rparr>) 2)
     = Inr [Fin (- (2811231329897677 / 35184372088832)),
            Fin (- (6465832058764657 / 35184372088832))]
   \<and> \<not> float_le (Fin (- (2811231329897677 / 35184372088832)))
          (Fin (- (6465832058764657 / 35184372088832)))"
  by (simp add: run_simulation_def month_body_def default_SimulationConfig_def float_eval
        upto_1_2 cong: and_then_weak_cong)

text \<open>
  Claim C7, as amended. In every month whose entering active population is between 0
  and \<open>2^53\<close>, and with \<^verbatim>\<open>0 <= events_per_host_per_month <= 1\<close>, the events created are
  non-negative and bounded by the active population entering the month (the initial hosts
  for the first month, the previous record's \<^verbatim>\<open>active_hosts\<close> afterwards). The record's own
  \<^verbatim>\<open>active_hosts\<close> field is the population after churn and new hosts, and does not bound
  the events created.
\<close>

theorem events_created_bounded:
  "run_simulation c months = Inr rs \<and> i < length rs
   \<and> float_ge0 (SimulationConfig.events_per_host_per_month c)
   \<and> float_le (SimulationConfig.events_per_host_per_month c) (Fin 1)
   \<and> 0 \<le> fst (snd (entering c rs i)) \<and> fst (snd (entering c rs i)) \<le> 2 ^ 53 \<longrightarrow>
     0 \<le> MonthlyMetrics.events_created (rs ! i)
   \<and> MonthlyMetrics.events_created (rs ! i) \<le> fst (snd (entering c rs i))"
proof (rule impI)
  assume a: "run_simulation c months = Inr rs \<and> i < length rs
   \<and> float_ge0 (SimulationConfig.events_per_host_per_month c)
   \<and> float_le (SimulationConfig.events_per_host_per_month c) (Fin 1)
   \<and> 0 \<le> fst (snd (entering c rs i)) \<and> fst (snd (entering c rs i)) \<le> 2 ^ 53"
  obtain th ah tu cum where e: "entering c rs i = (th, ah, tu, cum)"
    by (cases "entering c rs i") auto
  from a have "month_body c (int i + 1) (th, ah, tu, cum) = Inr (rs ! i, state_of (rs ! i))"
    using run_simulation_Inr(2)[of c months rs i] e by simp
  from month_body_Inr[OF this] have
    "and_then (int_times_float ah (SimulationConfig.events_per_host_per_month c)) py_int
       = Inr (MonthlyMetrics.events_created (rs ! i))" by blast
  from int_product_le[OF _ _ _ _ this] a e show
    "0 \<le> MonthlyMetrics.events_created (rs ! i)
     \<and> MonthlyMetrics.events_created (rs ! i) \<le> fst (snd (entering c rs i))"
    by simp
qed

text \<open>The theorem at the second month of the default configuration: 68 active hosts enter
  the month and create 54 events.\<close>

theorem events_created_bounded_witness:
  "\<exists>rs. run_simulation default_SimulationConfig 2 = Inr rs \<and> 1 < length rs
     \<and> float_ge0 (float_of_rat (8 / 10)) \<and> float_le (float_of_rat (8 / 10)) (Fin 1)
     \<and> fst (snd (entering default_SimulationConfig rs 1)) = 68 \<and> (0::int) \<le> 68
     \<and> (68::int) \<le> 2 ^ 53
     \<and> MonthlyMetrics.events_created (rs ! 1) = 54
     \<and> 0 \<le> MonthlyMetrics.events_created (rs ! 1)
     \<and> MonthlyMetrics.events_created (rs ! 1) \<le> 68"
proof -
  obtain rs where rs: "run_simulation default_SimulationConfig 2 = Inr rs"
    using default_run2 by blast
  with default_run2 have l: "1 < length rs"
    and e: "fst (snd (entering default_SimulationConfig rs 1)) = 68"
    and v: "MonthlyMetrics.events_created (rs ! 1) = 54"
    by (auto simp: entering_def state_of_def)
  have r: "float_ge0 (float_of_rat (8 / 10)) \<and> float_le (float_of_rat (8 / 10)) (Fin 1)"
    by (simp add: float_ge0_def float_eval)
  from events_created_bounded[of default_SimulationConfig 2 rs 1] rs l e r
  have "0 \<le> MonthlyMetrics.events_created (rs ! 1)
      \<and> MonthlyMetrics.events_created (rs ! 1) \<le> 68"
    by (simp add: default_SimulationConfig_def)
  with rs l e v r show ?thesis by auto
qed

text \<open>The claim as stated fails: with the default configuration at a monthly retention
  of 0.1, the first record has 40 events created and 31 active hosts.\<close>

theorem events_created_counterexample:
  "map_sum id (map MonthlyMetrics.events_created)
     (run_simulation (default_SimulationConfig\<lparr>host_monthly_retention := float_of_rat (1 / 10)\<rparr>) 1)
     = Inr [40]
   \<and> map_sum id (map active_hosts)
     (run_simulation (default_SimulationConfig\<lparr>host_monthly_retention := float_of_rat (1 / 10)\<rparr>) 1)
     = Inr [31]
   \<and> \<not> (40 :: int) \<le> 31"
  by (simp add: run_simulation_def month_body_def default_SimulationConfig_def float_eval
        cong: and_then_weak_cong)

text \<open>
  Claim C8, as amended. For every configuration with no initial hosts and a finite price,
  and every months value, every record produced reports zero events created, zero
  premium upgrades, a zero revenue, a cumulative revenue of \<^verbatim>\<open>0.0\<close> and the viral
  coefficient 0.
\<close>

theorem zero_initial_hosts:
  "initial_hosts c = 0 \<and> is_finite (premium_price_gbp c)
   \<and> run_simulation c months = Inr rs \<and> r \<in> set rs \<longrightarrow>
     MonthlyMetrics.events_created r = 0 \<and> MonthlyMetrics.premium_upgrades r = 0
   \<and> is_zero (revenue_gbp r) \<and> cumulative_revenue_gbp r = Fin 0
   \<and> viral_coefficient r = PyInt 0"
proof (rule impI)
  assume a: "initial_hosts c = 0 \<and> is_finite (premium_price_gbp c)
   \<and> run_simulation c months = Inr rs \<and> r \<in> set rs"
  then have h: "initial_hosts c = 0" and p: "is_finite (premium_price_gbp c)"
    and rs: "run_simulation c months = Inr rs" by simp_all
  from a obtain i where i: "i < length rs" and r: "rs ! i = r"
    by (auto simp: in_set_conv_nth)
  obtain th ah tu cum where e: "entering c rs i = (th, ah, tu, cum)"
    by (cases "entering c rs i") auto
  from run_simulation_zero[OF h p rs i] e have z: "ah = 0" "cum = Fin 0" by simp_all
  from run_simulation_Inr(2)[OF rs i] e z r
  have "month_body c (int i + 1) (th, 0, tu, Fin 0) = Inr (r, state_of r)" by simp
  from month_body_zero[OF p this] show
    "MonthlyMetrics.events_created r = 0 \<and> MonthlyMetrics.premium_upgrades r = 0
     \<and> is_zero (revenue_gbp r) \<and> cumulative_revenue_gbp r = Fin 0
     \<and> viral_coefficient r = PyInt 0"
    by simp
qed

text \<open>The theorem at the default configuration without initial hosts.\<close>

theorem zero_initial_hosts_witness:
  "is_finite (float_of_rat (799 / 100))
   \<and> (\<exists>r. run_simulation (default_SimulationConfig\<lparr>initial_hosts := 0\<rparr>) 1 = Inr [r]
        \<and> r \<in> set [r]
        \<and> MonthlyMetrics.events_created r = 0 \<and> MonthlyMetrics.premium_upgrades r = 0
        \<and> is_zero (revenue_gbp r) \<and> cumulative_revenue_gbp r = Fin 0
        \<and> viral_coefficient r = PyInt 0)"
proof -
  have p: "is_finite (float_of_rat (799 / 100))" by (simp add: float_eval)
  obtain r where r: "run_simulation (default_SimulationConfig\<lparr>initial_hosts := 0\<rparr>) 1 = Inr [r]"
    using zero_hosts_run1 by blast
  from zero_initial_hosts[of "default_SimulationConfig\<lparr>initial_hosts := 0\<rparr>" 1 "[r]" r] r p
  have "MonthlyMetrics.events_created r = 0 \<and> MonthlyMetrics.premium_upgrades r = 0
     \<and> is_zero (revenue_gbp r) \<and> cumulative_revenue_gbp r = Fin 0
     \<and> viral_coefficient r = PyInt 0"
    by (simp add: default_SimulationConfig_def)
  with p r show ?thesis by auto
qed

text \<open>The claim as stated fails for an infinite price, well-formed as a float: the
  revenue \<^verbatim>\<open>0 * inf\<close> is NaN, which is not zero.\<close>

theorem zero_initial_hosts_counterexample:
  "map_sum id (map revenue_gbp)
     (run_simulation
        (default_SimulationConfig\<lparr>initial_hosts := 0, premium_price_gbp := Infty False\<rparr>) 1)
     = Inr [NaN]
   \<and> \<not> is_zero NaN"
  by (simp add: run_simulation_def month_body_def default_SimulationConfig_def float_eval
        is_zero_def cong: and_then_weak_cong)

text \<open>
  Claim C9. \<^verbatim>\<open>run_gtm_simulation\<close> looks its scenario up in a dict with exactly the keys
  \<^verbatim>\<open>"low"\<close>, \<^verbatim>\<open>"mid"\<close>, \<^verbatim>\<open>"high"\<close>, which select \<^verbatim>\<open>tiktok_monthly_installs_low\<close>,
  \<^verbatim>\<open>tiktok_monthly_installs_mid\<close> and \<^verbatim>\<open>tiktok_monthly_installs_high\<close>; any other
  scenario raises KeyError. The run depends on the scenario and on the three presets only
  through the selected install count: two runs that select equal counts, from
  configurations that differ at most in the three presets, return the same result.
  The selected count is the monthly TikTok install count of the run: a record reports no
  new TikTok users in months 1 to 4, \<^verbatim>\<open>int(count * 0.5)\<close> in month 5,
  \<^verbatim>\<open>int(count * 1.0)\<close> in month 6 and the count itself from month 7 on, and the total
  users of a record are those of the previous record plus the new users of all channels,
  the new TikTok users among them.
\<close>

theorem scenario_selects_installs:
  "tiktok_installs_of c ''low'' = Inr (tiktok_monthly_installs_low c)
   \<and> tiktok_installs_of c ''mid'' = Inr (tiktok_monthly_installs_mid c)
   \<and> tiktok_installs_of c ''high'' = Inr (tiktok_monthly_installs_high c)
   \<and> (s \<noteq> ''low'' \<and> s \<noteq> ''mid'' \<and> s \<noteq> ''high'' \<longrightarrow>
        run_gtm_simulation c months s = Inl KeyError)
   \<and> (tiktok_installs_of c s = Inr t \<longrightarrow>
        run_gtm_simulation c months s
          = gtm_loop c t [1..months] (0, 0, 0, 0, 0, 0, 0, Fin 0) [])
   \<and> (tiktok_installs_of c s = Inr t \<and> tiktok_installs_of c s' = Inr t \<longrightarrow>
        run_gtm_simulation c months s = run_gtm_simulation c months s')
   \<and> (tiktok_installs_of c s = Inr t
       \<and> tiktok_installs_of (c\<lparr>tiktok_monthly_installs_low := a,
            tiktok_monthly_installs_mid := b, tiktok_monthly_installs_high := d\<rparr>) s' = Inr t
       \<longrightarrow> run_gtm_simulation c months s
          = run_gtm_simulation (c\<lparr>tiktok_monthly_installs_low := a,
              tiktok_monthly_installs_mid := b, tiktok_monthly_installs_high := d\<rparr>) months s')
   \<and> (tiktok_installs_of c s = Inr t \<and> run_gtm_simulation c months s = Inr ds
       \<and> i < length ds \<longrightarrow>
         (MonthData.month (ds ! i) \<le> 4 \<longrightarrow> new_users_from_tiktok (ds ! i) = 0)
       \<and> (MonthData.month (ds ! i) = 5 \<longrightarrow>
            and_then (int_times_float t (float_of_rat (5 / 10))) py_int
              = Inr (new_users_from_tiktok (ds ! i)))
       \<and> (MonthData.month (ds ! i) = 6 \<longrightarrow>
            and_then (int_times_float t (float_of_rat 1)) py_int
              = Inr (new_users_from_tiktok (ds ! i)))
       \<and> (7 \<le> MonthData.month (ds ! i) \<longrightarrow> new_users_from_tiktok (ds ! i) = t)
       \<and> total_users (ds ! i)
           = (if i = 0 then 0 else total_users (ds ! (i - 1)))
             + (new_users_from_seed (ds ! i) + new_users_from_b2b (ds ! i)
                + new_users_from_tiktok (ds ! i) + new_users_from_festival (ds ! i)
                + MonthData.installs_from_web (ds ! i)))"
proof -
  have key: "tiktok_of_month t (MonthData.month (ds ! i)) (new_users_from_tiktok (ds ! i))"
    "total_users (ds ! i)
       = (if i = 0 then 0 else total_users (ds ! (i - 1))) + new_users (ds ! i)"
    if a: "tiktok_installs_of c s = Inr t \<and> run_gtm_simulation c months s = Inr ds
       \<and> i < length ds"
  proof -
    from a have t: "tiktok_installs_of c s = Inr t"
      and ds: "run_gtm_simulation c months s = Inr ds" and i: "i < length ds" by simp_all
    have m: "MonthData.month (ds ! i) = int i + 1"
      using run_gtm_simulation_Inr(2)[OF ds i] .
    from run_gtm_simulation_users[OF t ds i] m
    show "tiktok_of_month t (MonthData.month (ds ! i)) (new_users_from_tiktok (ds ! i))"
      "total_users (ds ! i)
         = (if i = 0 then 0 else total_users (ds ! (i - 1))) + new_users (ds ! i)"
      by simp_all
  qed
  show ?thesis
  proof (intro conjI impI)
  show "tiktok_installs_of c ''low'' = Inr (tiktok_monthly_installs_low c)"
    by (simp add: tiktok_installs_of_def)
  show "tiktok_installs_of c ''mid'' = Inr (tiktok_monthly_installs_mid c)"
    by (simp add: tiktok_installs_of_def)
  show "tiktok_installs_of c ''high'' = Inr (tiktok_monthly_installs_high c)"
    by (simp add: tiktok_installs_of_def)
next
  assume "s \<noteq> ''low'' \<and> s \<noteq> ''mid'' \<and> s \<noteq> ''high''"
  then have "tiktok_installs_of c s = Inl KeyError" by (simp add: tiktok_installs_of_Inl)
  then show "run_gtm_simulation c months s = Inl KeyError"
    by (simp add: run_gtm_simulation_def and_then_Inl)
next
  assume "tiktok_installs_of c s = Inr t"
  then show "run_gtm_simulation c months s
      = gtm_loop c t [1..months] (0, 0, 0, 0, 0, 0, 0, Fin 0) []"
    by (simp add: run_gtm_simulation_def and_then_Inr)
next
  assume "tiktok_installs_of c s = Inr t \<and> tiktok_installs_of c s' = Inr t"
  then show "run_gtm_simulation c months s = run_gtm_simulation c months s'"
    by (simp add: run_gtm_simulation_def and_then_Inr)
next
  assume "tiktok_installs_of c s = Inr t
       \<and> tiktok_installs_of (c\<lparr>tiktok_monthly_installs_low := a,
            tiktok_monthly_installs_mid := b, tiktok_monthly_installs_high := d\<rparr>) s' = Inr t"
  then show "run_gtm_simulation c months s
          = run_gtm_simulation (c\<lparr>tiktok_monthly_installs_low := a,
              tiktok_monthly_installs_mid := b, tiktok_monthly_installs_high := d\<rparr>) months s'"
    by (simp add: run_gtm_simulation_def and_then_Inr gtm_loop_presets)
next
  assume a: "tiktok_installs_of c s = Inr t \<and> run_gtm_simulation c months s = Inr ds
       \<and> i < length ds"
    and b: "MonthData.month (ds ! i) \<le> 4"
  from key[OF a] b show "new_users_from_tiktok (ds ! i) = 0" by (simp add: tiktok_of_month_def)
next
  assume a: "tiktok_installs_of c s = Inr t \<and> run_gtm_simulation c months s = Inr ds
       \<and> i < length ds"
    and b: "MonthData.month (ds ! i) = 5"
  from key[OF a] b show "and_then (int_times_float t (float_of_rat (5 / 10))) py_int
      = Inr (new_users_from_tiktok (ds ! i))"
    by (simp add: tiktok_of_month_def)
next
  assume a: "tiktok_installs_of c s = Inr t \<and> run_gtm_simulation c months s = Inr ds
       \<and> i < length ds"
    and b: "MonthData.month (ds ! i) = 6"
  from key[OF a] b show "and_then (int_times_float t (float_of_rat 1)) py_int
      = Inr (new_users_from_tiktok (ds ! i))"
    by (simp add: tiktok_of_month_def)
next
  assume a: "tiktok_installs_of c s = Inr t \<and> run_gtm_simulation c months s = Inr ds
       \<and> i < length ds"
    and b: "7 \<le> MonthData.month (ds ! i)"
  from key[OF a] b show "new_users_from_tiktok (ds ! i) = t"
    by (simp add: tiktok_of_month_def)
next
  assume a: "tiktok_installs_of c s = Inr t \<and> run_gtm_simulation c months s = Inr ds
       \<and> i < length ds"
  from key[OF a] show "total_users (ds ! i)
      = (if i = 0 then 0 else total_users (ds ! (i - 1)))
        + (new_users_from_seed (ds ! i) + new_users_from_b2b (ds ! i)
           + new_users_from_tiktok (ds ! i) + new_users_from_festival (ds ! i)
           + MonthData.installs_from_web (ds ! i))"
    by (simp add: new_users_def)
  qed
qed

text \<open>The theorem at the default configuration with the low preset raised to 200, the
  value of the mid preset: the scenarios \<^verbatim>\<open>"low"\<close> and \<^verbatim>\<open>"mid"\<close> give the same run; the
  scenario \<^verbatim>\<open>"viral"\<close> raises KeyError. In the scenario \<^verbatim>\<open>"high"\<close> of the default
  configuration, with 1000 installs, the records of months 4 to 7 report 0, 500, 1000 and
  1000 new TikTok users, and the total users grow from 462 by 705, 1208 and 1912.\<close>

theorem scenario_selects_installs_witness:
  "tiktok_installs_of (default_GTMConfig\<lparr>tiktok_monthly_installs_low := 200\<rparr>) ''low''
     = Inr 200
   \<and> tiktok_installs_of (default_GTMConfig\<lparr>tiktok_monthly_installs_low := 200\<rparr>) ''mid''
     = Inr 200
   \<and> run_gtm_simulation (default_GTMConfig\<lparr>tiktok_monthly_installs_low := 200\<rparr>) 12 ''low''
     = run_gtm_simulation (default_GTMConfig\<lparr>tiktok_monthly_installs_low := 200\<rparr>) 12 ''mid''
   \<and> run_gtm_simulation default_GTMConfig 12 ''viral'' = Inl KeyError
   \<and> tiktok_installs_of default_GTMConfig ''high'' = Inr 1000
   \<and> (\<exists>ds. run_gtm_simulation default_GTMConfig 7 ''high'' = Inr ds \<and> length ds = 7
        \<and> MonthData.month (ds ! 3) = 4 \<and> new_users_from_tiktok (ds ! 3) = 0
        \<and> MonthData.month (ds ! 4) = 5 \<and> new_users_from_tiktok (ds ! 4) = 500
        \<and> and_then (int_times_float 1000 (float_of_rat (5 / 10))) py_int = Inr 500
        \<and> MonthData.month (ds ! 5) = 6 \<and> new_users_from_tiktok (ds ! 5) = 1000
        \<and> and_then (int_times_float 1000 (float_of_rat 1)) py_int = Inr 1000
        \<and> MonthData.month (ds ! 6) = 7 \<and> new_users_from_tiktok (ds ! 6) = 1000
        \<and> total_users (ds ! 3) = 462 \<and> total_users (ds ! 4) = 462 + 705
        \<and> total_users (ds ! 5) = 1167 + 1208 \<and> total_users (ds ! 6) = 2375 + 1912)"
proof -
  let ?c = "default_GTMConfig\<lparr>tiktok_monthly_installs_low := 200\<rparr>"
  have l: "tiktok_installs_of ?c ''low'' = Inr 200"
    and m: "tiktok_installs_of ?c ''mid'' = Inr 200"
    by (simp_all add: tiktok_installs_of_def default_GTMConfig_def)
  from scenario_selects_installs[of ?c "''low''" 12 200 "''mid''"] l m
  have e: "run_gtm_simulation ?c 12 ''low'' = run_gtm_simulation ?c 12 ''mid''" by blast
  from scenario_selects_installs[of default_GTMConfig "''viral''" 12]
  have k: "run_gtm_simulation default_GTMConfig 12 ''viral'' = Inl KeyError" by simp
  have h: "tiktok_installs_of default_GTMConfig ''high'' = Inr 1000"
    by (simp add: tiktok_installs_of_def default_GTMConfig_def)
  from default_gtm_high7 obtain ds where
    all: "run_gtm_simulation default_GTMConfig 7 ''high'' = Inr ds
     \<and> map new_users_from_tiktok ds = [0, 0, 0, 0, 500, 1000, 1000]
     \<and> map new_users ds = [53, 3, 203, 203, 705, 1208, 1912]
     \<and> map total_users ds = [53, 56, 259, 462, 1167, 2375, 4287]" ..
  note ds = all[THEN conjunct1]
    and nt = all[THEN conjunct2, THEN conjunct1]
    and nu = all[THEN conjunct2, THEN conjunct2, THEN conjunct1]
    and tu = all[THEN conjunct2, THEN conjunct2, THEN conjunct2]
  from arg_cong[OF nt, of length] have len: "length ds = 7" by simp
  have nth: "f (ds ! j) = map f ds ! j" if "j < 7" for j and f :: "MonthData \<Rightarrow> int"
    using that len by simp
  have tk: "new_users_from_tiktok (ds ! 3) = 0" "new_users_from_tiktok (ds ! 4) = 500"
    "new_users_from_tiktok (ds ! 5) = 1000" "new_users_from_tiktok (ds ! 6) = 1000"
    by (simp_all add: nth nt)
  have nw: "new_users (ds ! 4) = 705" "new_users (ds ! 5) = 1208" "new_users (ds ! 6) = 1912"
    by (simp_all add: nth nu)
  have t3: "total_users (ds ! 3) = 462" by (simp add: nth tu)
  note inst = scenario_selects_installs[of default_GTMConfig "''high''" 7 1000 _ _ _ _ ds]
  note i4 = inst[where i = 4] and i5 = inst[where i = 5] and i6 = inst[where i = 6]
  have mon: "MonthData.month (ds ! 3) = 4" "MonthData.month (ds ! 4) = 5"
    "MonthData.month (ds ! 5) = 6" "MonthData.month (ds ! 6) = 7"
    using run_gtm_simulation_Inr(2)[OF ds] len by simp_all
  have r5: "and_then (int_times_float 1000 (float_of_rat (5 / 10))) py_int
      = Inr (new_users_from_tiktok (ds ! 4))"
    using i4 h ds len mon by simp
  have r6: "and_then (int_times_float 1000 (float_of_rat 1)) py_int
      = Inr (new_users_from_tiktok (ds ! 5))"
    using i5 h ds len mon by simp
  have t4: "total_users (ds ! 4) = total_users (ds ! 3) + 705"
    using i4 h ds len nw(1)[unfolded new_users_def] by simp
  have t5: "total_users (ds ! 5) = total_users (ds ! 4) + 1208"
    using i5 h ds len nw(2)[unfolded new_users_def] by simp
  have t6: "total_users (ds ! 6) = total_users (ds ! 5) + 1912"
    using i6 h ds len nw(3)[unfolded new_users_def] by simp
  from l m e k h ds len mon r5 r6 t3 t4 t5 t6 tk
  show ?thesis by (intro conjI exI[of _ ds]) simp_all
qed

text \<open>
  Claim C10, as amended. In the sequence returned by \<^verbatim>\<open>run_simulation\<close> the cumulative
  revenue of each record is the running float sum of the revenues of the records up to it:
  the revenues added as binary64 floats from left to right starting from \<^verbatim>\<open>0.0\<close>, every
  addition rounded, as the loop adds them. It equals the exact sum of these revenues when
  each of them is a non-negative integer and their sum is at most \<open>2^53\<close>. The same holds
  between \<^verbatim>\<open>cumulative_revenue\<close> and \<^verbatim>\<open>revenue\<close> in the records of
  \<^verbatim>\<open>run_gtm_simulation\<close>.
\<close>

theorem cumulative_is_prefix_sum:
  "(run_simulation c months = Inr rs \<and> m < length rs \<longrightarrow>
      cumulative_revenue_gbp (rs ! m) = float_sum (map revenue_gbp (take (m + 1) rs))
      \<and> (list_all nonneg_integral (map revenue_gbp (take (m + 1) rs))
           \<and> sum_list (map val (map revenue_gbp (take (m + 1) rs))) \<le> 2 ^ 53 \<longrightarrow>
         cumulative_revenue_gbp (rs ! m)
           = Fin (sum_list (map val (map revenue_gbp (take (m + 1) rs))))))
   \<and> (run_gtm_simulation g months s = Inr ds \<and> m < length ds \<longrightarrow>
      cumulative_revenue (ds ! m) = float_sum (map revenue (take (m + 1) ds))
      \<and> (list_all nonneg_integral (map revenue (take (m + 1) ds))
           \<and> sum_list (map val (map revenue (take (m + 1) ds))) \<le> 2 ^ 53 \<longrightarrow>
         cumulative_revenue (ds ! m)
           = Fin (sum_list (map val (map revenue (take (m + 1) ds))))))"
proof (rule conjI)
  show "run_simulation c months = Inr rs \<and> m < length rs \<longrightarrow>
      cumulative_revenue_gbp (rs ! m) = float_sum (map revenue_gbp (take (m + 1) rs))
      \<and> (list_all nonneg_integral (map revenue_gbp (take (m + 1) rs))
           \<and> sum_list (map val (map revenue_gbp (take (m + 1) rs))) \<le> 2 ^ 53 \<longrightarrow>
         cumulative_revenue_gbp (rs ! m)
           = Fin (sum_list (map val (map revenue_gbp (take (m + 1) rs)))))"
  proof (rule impI)
    assume a: "run_simulation c months = Inr rs \<and> m < length rs"
    then have rs: "run_simulation c months = Inr rs" by simp
    have "\<forall>i < length (map cumulative_revenue_gbp rs).
        map cumulative_revenue_gbp rs ! i
          = float_add (if i = 0 then Fin 0 else map cumulative_revenue_gbp rs ! (i - 1))
              (map revenue_gbp rs ! i)"
    proof (intro allI impI)
      fix i assume "i < length (map cumulative_revenue_gbp rs)"
      then have i: "i < length rs" by simp
      obtain th ah tu cum where e: "entering c rs i = (th, ah, tu, cum)"
        by (cases "entering c rs i") auto
      then have cum: "cum = (if i = 0 then Fin 0 else cumulative_revenue_gbp (rs ! (i - 1)))"
        by (auto simp: entering_def initial_state_def state_of_def split: if_splits)
      from run_simulation_Inr(2)[OF rs i] e
      have "month_body c (int i + 1) (th, ah, tu, cum) = Inr (rs ! i, state_of (rs ! i))"
        by simp
      from month_body_Inr[OF this]
      have "cumulative_revenue_gbp (rs ! i) = float_add cum (revenue_gbp (rs ! i))" by blast
      then show "map cumulative_revenue_gbp rs ! i
          = float_add (if i = 0 then Fin 0 else map cumulative_revenue_gbp rs ! (i - 1))
              (map revenue_gbp rs ! i)"
        using i cum by (cases i) simp_all
    qed
    from prefix_sums[OF this, of m] a have
      fs: "cumulative_revenue_gbp (rs ! m) = float_sum (map revenue_gbp (take (m + 1) rs))"
      by (simp add: take_map)
    show "cumulative_revenue_gbp (rs ! m) = float_sum (map revenue_gbp (take (m + 1) rs))
      \<and> (list_all nonneg_integral (map revenue_gbp (take (m + 1) rs))
           \<and> sum_list (map val (map revenue_gbp (take (m + 1) rs))) \<le> 2 ^ 53 \<longrightarrow>
         cumulative_revenue_gbp (rs ! m)
           = Fin (sum_list (map val (map revenue_gbp (take (m + 1) rs)))))"
      using fs float_sum_integral[of "map revenue_gbp (take (m + 1) rs)"] by simp
  qed
next
  show "run_gtm_simulation g months s = Inr ds \<and> m < length ds \<longrightarrow>
      cumulative_revenue (ds ! m) = float_sum (map revenue (take (m + 1) ds))
      \<and> (list_all nonneg_integral (map revenue (take (m + 1) ds))
           \<and> sum_list (map val (map revenue (take (m + 1) ds))) \<le> 2 ^ 53 \<longrightarrow>
         cumulative_revenue (ds ! m)
           = Fin (sum_list (map val (map revenue (take (m + 1) ds)))))"
  proof (rule impI)
    assume a: "run_gtm_simulation g months s = Inr ds \<and> m < length ds"
    then have ds: "run_gtm_simulation g months s = Inr ds" by simp
    have "\<forall>i < length (map cumulative_revenue ds).
        map cumulative_revenue ds ! i
          = float_add (if i = 0 then Fin 0 else map cumulative_revenue ds ! (i - 1))
              (map revenue ds ! i)"
    proof (intro allI impI)
      fix i assume "i < length (map cumulative_revenue ds)"
      then have i: "i < length ds" by simp
      from run_gtm_simulation_Inr(3)[OF ds i] show "map cumulative_revenue ds ! i
          = float_add (if i = 0 then Fin 0 else map cumulative_revenue ds ! (i - 1))
              (map revenue ds ! i)"
        using i by (cases i) simp_all
    qed
    from prefix_sums[OF this, of m] a have
      fs: "cumulative_revenue (ds ! m) = float_sum (map revenue (take (m + 1) ds))"
      by (simp add: take_map)
    show "cumulative_revenue (ds ! m) = float_sum (map revenue (take (m + 1) ds))
      \<and> (list_all nonneg_integral (map revenue (take (m + 1) ds))
           \<and> sum_list (map val (map revenue (take (m + 1) ds))) \<le> 2 ^ 53 \<longrightarrow>
         cumulative_revenue (ds ! m)
           = Fin (sum_list (map val (map revenue (take (m + 1) ds)))))"
      using fs float_sum_integral[of "map revenue (take (m + 1) ds)"] by simp
  qed
qed

text \<open>The theorem at the second record of the default runs, \<^verbatim>\<open>(0.0 + 79.9) + 103.87\<close> and
  \<^verbatim>\<open>(0.0 + 151.81) + 135.83\<close>, and at the second record of the runs with a price of 8,
  where the revenues are the integers 80 and 104, and 152 and 136, and the cumulative
  revenues are their exact sums 184 and 288.\<close>

theorem cumulative_is_prefix_sum_witness:
  "(\<exists>rs. run_simulation default_SimulationConfig 2 = Inr rs \<and> 1 < length rs
      \<and> cumulative_revenue_gbp (rs ! 1) = Fin (6465832058764657 / 35184372088832)
      \<and> cumulative_revenue_gbp (rs ! 1)
          = float_add (float_add (Fin 0) (Fin (2811231329897677 / 35184372088832)))
              (Fin (913650182216745 / 8796093022208)))
   \<and> (\<exists>ds. run_gtm_simulation default_GTMConfig 2 ''mid'' = Inr ds \<and> 1 < length ds
      \<and> cumulative_revenue (ds ! 1) = Fin (2530108196907909 / 8796093022208)
      \<and> cumulative_revenue (ds ! 1)
          = float_add (float_add (Fin 0) (Fin (2670669763402793 / 17592186044416)))
              (Fin (4779093260826051 / 35184372088832)))
   \<and> (\<exists>rs. run_simulation (default_SimulationConfig\<lparr>premium_price_gbp := Fin 8\<rparr>) 2 = Inr rs
      \<and> 1 < length rs
      \<and> list_all nonneg_integral (map revenue_gbp (take (1 + 1) rs))
      \<and> sum_list (map val (map revenue_gbp (take (1 + 1) rs))) = 80 + 104
      \<and> cumulative_revenue_gbp (rs ! 1) = Fin (80 + 104))
   \<and> (\<exists>ds. run_gtm_simulation (default_GTMConfig\<lparr>premium_price := Fin 8\<rparr>) 2 ''mid'' = Inr ds
      \<and> 1 < length ds
      \<and> list_all nonneg_integral (map revenue (take (1 + 1) ds))
      \<and> sum_list (map val (map revenue (take (1 + 1) ds))) = 152 + 136
      \<and> cumulative_revenue (ds ! 1) = Fin (152 + 136))"
proof -
  obtain rs where rs: "run_simulation default_SimulationConfig 2 = Inr rs"
    using default_run2 by blast
  with default_run2 have l: "1 < length rs"
    and v: "cumulative_revenue_gbp (rs ! 1) = Fin (6465832058764657 / 35184372088832)"
    and t: "map revenue_gbp (take (1 + 1) rs)
      = [Fin (2811231329897677 / 35184372088832), Fin (913650182216745 / 8796093022208)]"
    by auto
  obtain ds where ds: "run_gtm_simulation default_GTMConfig 2 ''mid'' = Inr ds"
    using default_gtm_run2 by blast
  with default_gtm_run2 have l': "1 < length ds"
    and v': "cumulative_revenue (ds ! 1) = Fin (2530108196907909 / 8796093022208)"
    and t': "map revenue (take (1 + 1) ds)
      = [Fin (2670669763402793 / 17592186044416), Fin (4779093260826051 / 35184372088832)]"
    by auto
  note inst = cumulative_is_prefix_sum[of default_SimulationConfig 2 rs 1 default_GTMConfig
      "''mid''" ds]
  from inst rs l t have 1: "cumulative_revenue_gbp (rs ! 1)
      = float_add (float_add (Fin 0) (Fin (2811231329897677 / 35184372088832)))
          (Fin (913650182216745 / 8796093022208))"
    by (simp add: float_sum_def)
  from inst ds l' t' have 2: "cumulative_revenue (ds ! 1)
      = float_add (float_add (Fin 0) (Fin (2670669763402793 / 17592186044416)))
          (Fin (4779093260826051 / 35184372088832))"
    by (simp add: float_sum_def)
  let ?c = "default_SimulationConfig\<lparr>premium_price_gbp := Fin 8\<rparr>"
  let ?g = "default_GTMConfig\<lparr>premium_price := Fin 8\<rparr>"
  from price8_run2 obtain ps where pall: "run_simulation ?c 2 = Inr ps
     \<and> map revenue_gbp ps = [Fin 80, Fin 104]
     \<and> map cumulative_revenue_gbp ps = [Fin 80, Fin 184]" ..
  note ps = pall[THEN conjunct1] and pr = pall[THEN conjunct2, THEN conjunct1]
  from arg_cong[OF pr, of length] have pl: "length ps = 2" by simp
  then have pt: "map revenue_gbp (take (1 + 1) ps) = [Fin 80, Fin 104]" using pr by simp
  have pn: "list_all nonneg_integral (map revenue_gbp (take (1 + 1) ps))"
    unfolding pt by (simp add: nonneg_integral_def)
  have ps_sum: "sum_list (map val (map revenue_gbp (take (1 + 1) ps))) = 80 + 104"
    unfolding pt by simp
  from gtm_price8_run2 obtain qs where qall: "run_gtm_simulation ?g 2 ''mid'' = Inr qs
     \<and> map revenue qs = [Fin 152, Fin 136]
     \<and> map cumulative_revenue qs = [Fin 152, Fin 288]" ..
  note qs = qall[THEN conjunct1] and qr = qall[THEN conjunct2, THEN conjunct1]
  from arg_cong[OF qr, of length] have ql: "length qs = 2" by simp
  then have qt: "map revenue (take (1 + 1) qs) = [Fin 152, Fin 136]" using qr by simp
  have qn: "list_all nonneg_integral (map revenue (take (1 + 1) qs))"
    unfolding qt by (simp add: nonneg_integral_def)
  have qs_sum: "sum_list (map val (map revenue (take (1 + 1) qs))) = 152 + 136"
    unfolding qt by simp
  have pl1: "1 < length ps" using pl by simp
  have ql1: "1 < length qs" using ql by simp
  have ple: "sum_list (map val (map revenue_gbp (take (1 + 1) ps))) \<le> 2 ^ 53"
    unfolding ps_sum by simp
  have qle: "sum_list (map val (map revenue (take (1 + 1) qs))) \<le> 2 ^ 53"
    unfolding qs_sum by simp
  note inst' = cumulative_is_prefix_sum[of ?c 2 ps 1 ?g "''mid''" qs]
  from inst'[THEN conjunct1, THEN mp, OF conjI[OF ps pl1], THEN conjunct2, THEN mp,
      OF conjI[OF pn ple]]
  have "cumulative_revenue_gbp (ps ! 1)
      = Fin (sum_list (map val (map revenue_gbp (take (1 + 1) ps))))" .
  then have 3: "cumulative_revenue_gbp (ps ! 1) = Fin (80 + 104)" unfolding ps_sum .
  from inst'[THEN conjunct2, THEN mp, OF conjI[OF qs ql1], THEN conjunct2, THEN mp,
      OF conjI[OF qn qle]]
  have "cumulative_revenue (qs ! 1)
      = Fin (sum_list (map val (map revenue (take (1 + 1) qs))))" .
  then have 4: "cumulative_revenue (qs ! 1) = Fin (152 + 136)" unfolding qs_sum .
  have A: "\<exists>rs. run_simulation default_SimulationConfig 2 = Inr rs \<and> 1 < length rs
      \<and> cumulative_revenue_gbp (rs ! 1) = Fin (6465832058764657 / 35184372088832)
      \<and> cumulative_revenue_gbp (rs ! 1)
          = float_add (float_add (Fin 0) (Fin (2811231329897677 / 35184372088832)))
              (Fin (913650182216745 / 8796093022208))"
    using rs l v 1 by blast
  have B: "\<exists>ds. run_gtm_simulation default_GTMConfig 2 ''mid'' = Inr ds \<and> 1 < length ds
      \<and> cumulative_revenue (ds ! 1) = Fin (2530108196907909 / 8796093022208)
      \<and> cumulative_revenue (ds ! 1)
          = float_add (float_add (Fin 0) (Fin (2670669763402793 / 17592186044416)))
              (Fin (4779093260826051 / 35184372088832))"
    using ds l' v' 2 by blast
  have C: "\<exists>rs. run_simulation ?c 2 = Inr rs \<and> 1 < length rs
      \<and> list_all nonneg_integral (map revenue_gbp (take (1 + 1) rs))
      \<and> sum_list (map val (map revenue_gbp (take (1 + 1) rs))) = 80 + 104
      \<and> cumulative_revenue_gbp (rs ! 1) = Fin (80 + 104)"
    using ps pl1 pn ps_sum 3 by (intro exI[of _ ps] conjI)
  have D: "\<exists>ds. run_gtm_simulation ?g 2 ''mid'' = Inr ds \<and> 1 < length ds
      \<and> list_all nonneg_integral (map revenue (take (1 + 1) ds))
      \<and> sum_list (map val (map revenue (take (1 + 1) ds))) = 152 + 136
      \<and> cumulative_revenue (ds ! 1) = Fin (152 + 136)"
    using qs ql1 qn qs_sum 4 by (intro exI[of _ qs] conjI)
  from A B C D show ?thesis by (intro conjI)
qed

text \<open>The claim as stated fails, the sum of the revenues being their exact sum: in the
  default run of \<^verbatim>\<open>run_simulation\<close> the revenues of the first three records are the floats
  79.9, 103.87 and 143.82 and the cumulative revenue of the third record is one unit in
  the last place above their sum; in the default run of \<^verbatim>\<open>run_gtm_simulation\<close> the
  revenues of the first two records are the floats 151.81 and 135.83 and the cumulative
  revenue of the second record is one unit in the last place below their sum.\<close>

theorem cumulative_sum_counterexample:
  "map_sum id (map revenue_gbp) (run_simulation default_SimulationConfig 3)
     = Inr [Fin (2811231329897677 / 35184372088832), Fin (913650182216745 / 8796093022208),
            Fin (2530108196907909 / 17592186044416)]
   \<and> map_sum id (map cumulative_revenue_gbp) (run_simulation default_SimulationConfig 3)
     = Inr [Fin (2811231329897677 / 35184372088832), Fin (6465832058764657 / 35184372088832),
            Fin (2881512113145119 / 8796093022208)]
   \<and> val (Fin (2881512113145119 / 8796093022208))
       \<noteq> sum_list (map val [Fin (2811231329897677 / 35184372088832),
             Fin (913650182216745 / 8796093022208), Fin (2530108196907909 / 17592186044416)])
   \<and> map_sum id (map revenue) (run_gtm_simulation default_GTMConfig 2 ''mid'')
     = Inr [Fin (2670669763402793 / 17592186044416), Fin (4779093260826051 / 35184372088832)]
   \<and> map_sum id (map cumulative_revenue) (run_gtm_simulation default_GTMConfig 2 ''mid'')
     = Inr [Fin (2670669763402793 / 17592186044416), Fin (2530108196907909 / 8796093022208)]
   \<and> val (Fin (2530108196907909 / 8796093022208))
       \<noteq> sum_list (map val [Fin (2670669763402793 / 17592186044416),
             Fin (4779093260826051 / 35184372088832)])"
proof -
  from default_run3 obtain rs where all: "run_simulation default_SimulationConfig 3 = Inr rs
     \<and> map revenue_gbp rs
         = [Fin (2811231329897677 / 35184372088832), Fin (913650182216745 / 8796093022208),
            Fin (2530108196907909 / 17592186044416)]
     \<and> map cumulative_revenue_gbp rs
         = [Fin (2811231329897677 / 35184372088832), Fin (6465832058764657 / 35184372088832),
            Fin (2881512113145119 / 8796093022208)]" ..
  note rs = all[THEN conjunct1] and r = all[THEN conjunct2, THEN conjunct1]
    and c = all[THEN conjunct2, THEN conjunct2]
  have 1: "val (Fin (2881512113145119 / 8796093022208))
       \<noteq> sum_list (map val [Fin (2811231329897677 / 35184372088832),
             Fin (913650182216745 / 8796093022208), Fin (2530108196907909 / 17592186044416)])"
    by simp
  have 2: "val (Fin (2530108196907909 / 8796093022208))
       \<noteq> sum_list (map val [Fin (2670669763402793 / 17592186044416),
             Fin (4779093260826051 / 35184372088832)])"
    by simp
  show ?thesis using rs r c 1 2 by (simp add: default_gtm_run2)
qed

end
